theory Spec2Isabelle
  imports Complex_Main "HOL-Library.Word" "HOL-Library.Sublist" "HOL-Library.Multiset"
    "HOL-Library.Log_Nat"
begin

section \<open>JavaScript values used by the meal parser\<close>

subsection \<open>Strings\<close>

text \<open>
  A JavaScript string is a sequence of UTF-16 code units. The literals of the source are
  ASCII, written here as \<open>str ''...''\<close>.
\<close>

type_synonym code_unit = "16 word"
type_synonym jsstring = "code_unit list"

definition str :: "string \<Rightarrow> jsstring" where
  "str cs = map of_char cs"

text \<open>
  \<open>String.prototype.toLowerCase\<close>. The Unicode case mappings are reproduced where they
  reach the ASCII range: the capitals \<open>A\<close> to \<open>Z\<close>, U+0130 (capital I with dot above,
  whose lowercase is \<open>i\<close> followed by U+0307) and U+212A (the Kelvin sign, whose
  lowercase is \<open>k\<close>). Any other cased letter has a lowercase form outside ASCII; the
  model leaves such a letter as it is. The keys of the two lexicons are ASCII, so the
  parser does not tell the difference.
\<close>

definition lower_units :: "code_unit \<Rightarrow> jsstring" where
  "lower_units c =
     (if 0x41 \<le> c \<and> c \<le> 0x5A then [c + 0x20]
      else if c = 0x130 then [0x69, 0x307]
      else if c = 0x212A then [0x6B]
      else [c])"

definition toLowerCase :: "jsstring \<Rightarrow> jsstring" where
  "toLowerCase s = concat (map lower_units s)"

text \<open>
  \<open>String.prototype.toUpperCase\<close>, which the source does not call; case-insensitivity is
  stated with it. The small letters \<open>a\<close> to \<open>z\<close> go to their capitals, and of the
  mappings of the Unicode tables outside ASCII the model has the one of U+017F (the long
  s, whose uppercase is \<open>S\<close>); other code units pass through. The function is used on
  ASCII strings and on strings with U+017F only.
\<close>

definition upper_unit :: "code_unit \<Rightarrow> code_unit" where
  "upper_unit c =
     (if 0x61 \<le> c \<and> c \<le> 0x7A then c - 0x20
      else if c = 0x17F then 0x53
      else c)"

definition toUpperCase :: "jsstring \<Rightarrow> jsstring" where
  "toUpperCase s = map upper_unit s"

definition is_ascii :: "jsstring \<Rightarrow> bool" where
  "is_ascii s = list_all (\<lambda>c. c < 0x80) s"

text \<open>\<open>s.includes(t)\<close>: \<open>t\<close> occurs in \<open>s\<close> at some index.\<close>

fun includes_str :: "jsstring \<Rightarrow> jsstring \<Rightarrow> bool" where
  "includes_str [] t = (t = [])"
| "includes_str (c # cs) t = (prefix t (c # cs) \<or> includes_str cs t)"

text \<open>
  \<open>s.split(sep)\<close> for a separator of one code unit: the pieces between the occurrences
  of the separator, empty pieces included; the empty string gives one empty piece.
\<close>

fun split_str :: "code_unit \<Rightarrow> jsstring \<Rightarrow> jsstring list" where
  "split_str sep [] = [[]]"
| "split_str sep (c # cs) =
     (if c = sep then [] # split_str sep cs
      else (case split_str sep cs of [] \<Rightarrow> [[c]] | p # ps \<Rightarrow> (c # p) # ps))"

text \<open>\<open>parts.join(sep)\<close>.\<close>

fun join_str :: "jsstring \<Rightarrow> jsstring list \<Rightarrow> jsstring" where
  "join_str sep [] = []"
| "join_str sep [p] = p"
| "join_str sep (p # q # ps) = p @ sep @ join_str sep (q # ps)"

subsection \<open>Regular expressions of the parser\<close>

text \<open>
  The class \<open>\s\<close> of a JavaScript regular expression: the WhiteSpace and LineTerminator
  code points of ECMAScript.
\<close>

definition is_space :: "code_unit \<Rightarrow> bool" where
  "is_space c \<longleftrightarrow>
     c \<in> set [0x09, 0x0A, 0x0B, 0x0C, 0x0D, 0x20, 0xA0, 0x1680, 0x2028, 0x2029, 0x202F,
       0x205F, 0x3000, 0xFEFF] \<or> (0x2000 \<le> c \<and> c \<le> 0x200A)"

text \<open>
  The parser builds, for a quantity word \<open>q\<close> and a food \<open>f\<close>, the pattern
  \<open>q\s+f|f\s+q\<close> and calls \<open>test\<close> on the description. Every key of the two lexicons
  consists of letters, digits and spaces, so \<open>q\<close> and \<open>f\<close> stand for themselves in the
  pattern. \<open>spaces_then f t\<close>: \<open>\s+f\<close> matches at the start of \<open>t\<close> (with the
  backtracking of \<open>\s+\<close>); \<open>seq_at a b t\<close>: \<open>a\s+b\<close> matches at the start of \<open>t\<close>;
  \<open>regex_test q f s\<close>: the pattern matches at some index of \<open>s\<close>.
\<close>

fun spaces_then :: "jsstring \<Rightarrow> jsstring \<Rightarrow> bool" where
  "spaces_then f [] = False"
| "spaces_then f (c # cs) = (is_space c \<and> (prefix f cs \<or> spaces_then f cs))"

definition seq_at :: "jsstring \<Rightarrow> jsstring \<Rightarrow> jsstring \<Rightarrow> bool" where
  "seq_at a b t = (prefix a t \<and> spaces_then b (drop (length a) t))"

fun regex_test :: "jsstring \<Rightarrow> jsstring \<Rightarrow> jsstring \<Rightarrow> bool" where
  "regex_test q f [] = (seq_at q f [] \<or> seq_at f q [])"
| "regex_test q f (c # cs) =
     (seq_at q f (c # cs) \<or> seq_at f q (c # cs) \<or> regex_test q f cs)"

subsection \<open>Numbers\<close>

text \<open>
  A JavaScript number is an IEEE double: a finite value, an infinity or NaN. A finite
  double is modelled by the rational that it is. Negative zero is not distinguished from
  zero.

  The operations of the parser, \<open>js_add\<close>, \<open>js_sub\<close>, \<open>js_mul\<close> and \<open>js_div\<close>, compute in
  the rationals, without rounding. The parser multiplies integers by 2, 3, 4, 1.5, 0.75
  and 0.5 and adds the products, which doubles do exactly; the constants 0.15, 0.2, 0.3,
  0.35, 0.5 and 0.9 are decimal fractions that doubles round, and the model takes them
  exactly. The sum of \<open>calculateTotals\<close>, whose numbers come from anywhere, is the rounded
  one, \<open>double_add\<close> below.
\<close>

datatype jsnum = Fin rat | PosInf | NegInf | NaN

fun js_neg :: "jsnum \<Rightarrow> jsnum" where
  "js_neg (Fin a) = Fin (- a)"
| "js_neg PosInf = NegInf"
| "js_neg NegInf = PosInf"
| "js_neg NaN = NaN"

fun js_add :: "jsnum \<Rightarrow> jsnum \<Rightarrow> jsnum" where
  "js_add (Fin a) (Fin b) = Fin (a + b)"
| "js_add NaN y = NaN"
| "js_add x NaN = NaN"
| "js_add PosInf NegInf = NaN"
| "js_add NegInf PosInf = NaN"
| "js_add PosInf y = PosInf"
| "js_add NegInf y = NegInf"
| "js_add (Fin a) y = y"

definition js_sub :: "jsnum \<Rightarrow> jsnum \<Rightarrow> jsnum" where
  "js_sub x y = js_add x (js_neg y)"

text \<open>The infinity of the sign of a nonzero rational.\<close>

definition inf_of_sign :: "rat \<Rightarrow> jsnum" where
  "inf_of_sign a = (if 0 < a then PosInf else NegInf)"

fun js_mul :: "jsnum \<Rightarrow> jsnum \<Rightarrow> jsnum" where
  "js_mul (Fin a) (Fin b) = Fin (a * b)"
| "js_mul NaN y = NaN"
| "js_mul x NaN = NaN"
| "js_mul (Fin a) PosInf = (if a = 0 then NaN else inf_of_sign a)"
| "js_mul (Fin a) NegInf = (if a = 0 then NaN else inf_of_sign (- a))"
| "js_mul PosInf (Fin b) = (if b = 0 then NaN else inf_of_sign b)"
| "js_mul NegInf (Fin b) = (if b = 0 then NaN else inf_of_sign (- b))"
| "js_mul PosInf PosInf = PosInf"
| "js_mul NegInf NegInf = PosInf"
| "js_mul PosInf NegInf = NegInf"
| "js_mul NegInf PosInf = NegInf"

fun js_div :: "jsnum \<Rightarrow> jsnum \<Rightarrow> jsnum" where
  "js_div (Fin a) (Fin b) =
     (if b = 0 then (if a = 0 then NaN else inf_of_sign a) else Fin (a / b))"
| "js_div NaN y = NaN"
| "js_div x NaN = NaN"
| "js_div (Fin a) PosInf = Fin 0"
| "js_div (Fin a) NegInf = Fin 0"
| "js_div PosInf (Fin b) = (if 0 \<le> b then PosInf else NegInf)"
| "js_div NegInf (Fin b) = (if 0 \<le> b then NegInf else PosInf)"
| "js_div PosInf y = NaN"
| "js_div NegInf y = NaN"

text \<open>\<open>x > y\<close>: false as soon as one side is NaN.\<close>

fun js_gt :: "jsnum \<Rightarrow> jsnum \<Rightarrow> bool" where
  "js_gt (Fin a) (Fin b) = (b < a)"
| "js_gt NaN y = False"
| "js_gt x NaN = False"
| "js_gt PosInf y = (y \<noteq> PosInf)"
| "js_gt x NegInf = (x \<noteq> NegInf)"
| "js_gt x PosInf = False"
| "js_gt NegInf y = False"

definition js_le :: "jsnum \<Rightarrow> jsnum \<Rightarrow> bool" where
  "js_le x y = (x \<noteq> NaN \<and> y \<noteq> NaN \<and> \<not> js_gt x y)"

fun Math_abs :: "jsnum \<Rightarrow> jsnum" where
  "Math_abs (Fin a) = Fin \<bar>a\<bar>"
| "Math_abs PosInf = PosInf"
| "Math_abs NegInf = PosInf"
| "Math_abs NaN = NaN"

text \<open>\<open>Math.round\<close>: the nearest integer, a tie going up.\<close>

fun Math_round :: "jsnum \<Rightarrow> jsnum" where
  "Math_round (Fin a) = Fin (of_int \<lfloor>a + 1 / 2\<rfloor>)"
| "Math_round x = x"

definition Math_min :: "jsnum \<Rightarrow> jsnum \<Rightarrow> jsnum" where
  "Math_min x y =
     (if x = NaN \<or> y = NaN then NaN else if js_gt x y then y else x)"

text \<open>
  The sum of two doubles is the double nearest to their sum, the one with the even
  significand when two are as near, and an infinity from \<open>2^1024\<close> on. \<open>binade q\<close> is the
  exponent \<open>e\<close> with \<open>2^e \<le> |q| < 2^(e+1)\<close>; the doubles of that size are the multiples of
  \<open>quantum q\<close>, 52 binary places further down, and below \<open>2^-1022\<close> the multiples of
  \<open>2^-1074\<close>.
\<close>

definition binade :: "rat \<Rightarrow> int" where
  "binade q =
     (let k = bitlen (fst (quotient_of \<bar>q\<bar>)) - bitlen (snd (quotient_of \<bar>q\<bar>))
      in if 2 powi k \<le> \<bar>q\<bar> then k else k - 1)"

definition quantum :: "rat \<Rightarrow> rat" where
  "quantum q = 2 powi (max (binade q) (- 1022) - 52)"

definition round_half_even :: "rat \<Rightarrow> int" where
  "round_half_even x =
     (let f = \<lfloor>x\<rfloor>; r = x - of_int f in
      if r < 1 / 2 then f else if 1 / 2 < r then f + 1 else if even f then f else f + 1)"

definition round_double :: "rat \<Rightarrow> jsnum" where
  "round_double q =
     (if q = 0 then Fin 0
      else
        (let r = of_int (round_half_even (q / quantum q)) * quantum q in
         if 2 ^ 1024 \<le> r then PosInf else if r \<le> - (2 ^ 1024) then NegInf else Fin r))"

definition double_add :: "jsnum \<Rightarrow> jsnum \<Rightarrow> jsnum" where
  "double_add x y = (case js_add x y of Fin q \<Rightarrow> round_double q | z \<Rightarrow> z)"

text \<open>
  Truthiness of a \<open>number | null\<close>: \<open>null\<close> (and \<open>undefined\<close>, not told apart from it
  here), \<open>0\<close> and \<open>NaN\<close> are falsy. \<open>or0 v\<close> is the expression \<open>v || 0\<close>.
\<close>

fun truthy :: "jsnum option \<Rightarrow> bool" where
  "truthy None = False"
| "truthy (Some (Fin a)) = (a \<noteq> 0)"
| "truthy (Some NaN) = False"
| "truthy (Some x) = True"

definition or0 :: "jsnum option \<Rightarrow> jsnum" where
  "or0 v = (if truthy v then the v else Fin 0)"

section \<open>The meal parser\<close>

record ParsedMeal =
  calories :: "jsnum option"
  protein :: "jsnum option"
  carbs :: "jsnum option"
  fat :: "jsnum option"
  confidence :: "jsnum option"

text \<open>An entry of the food table gives the four numbers and no confidence.\<close>

definition nutrition_of :: "rat \<Rightarrow> rat \<Rightarrow> rat \<Rightarrow> rat \<Rightarrow> ParsedMeal" where
  "nutrition_of cal p c f =
     \<lparr>calories = Some (Fin cal), protein = Some (Fin p), carbs = Some (Fin c),
      fat = Some (Fin f), confidence = None\<rparr>"

definition mockFoodDatabase :: "(jsstring \<times> ParsedMeal) list" where
  "mockFoodDatabase =
    [(str ''egg'', nutrition_of 70 6 1 5),
     (str ''eggs'', nutrition_of 140 12 2 10),
     (str ''toast'', nutrition_of 75 3 14 1),
     (str ''bread'', nutrition_of 75 3 14 1),
     (str ''butter'', nutrition_of 100 0 0 11),
     (str ''oatmeal'', nutrition_of 150 5 27 3),
     (str ''banana'', nutrition_of 105 1 27 0),
     (str ''apple'', nutrition_of 95 0 25 0),
     (str ''orange'', nutrition_of 62 1 15 0),
     (str ''coffee'', nutrition_of 2 0 0 0),
     (str ''milk'', nutrition_of 150 8 12 8),
     (str ''chicken'', nutrition_of 165 31 0 4),
     (str ''chicken breast'', nutrition_of 165 31 0 4),
     (str ''rice'', nutrition_of 205 4 45 0),
     (str ''pasta'', nutrition_of 220 8 43 1),
     (str ''salad'', nutrition_of 20 1 4 0),
     (str ''sandwich'', nutrition_of 350 15 35 15),
     (str ''burger'', nutrition_of 540 25 40 27),
     (str ''pizza'', nutrition_of 285 12 36 10),
     (str ''steak'', nutrition_of 271 25 0 19),
     (str ''salmon'', nutrition_of 208 20 0 13),
     (str ''vegetables'', nutrition_of 50 2 10 0),
     (str ''broccoli'', nutrition_of 55 4 11 1),
     (str ''chips'', nutrition_of 150 2 15 10),
     (str ''cookies'', nutrition_of 160 2 21 8),
     (str ''yogurt'', nutrition_of 100 10 12 0),
     (str ''nuts'', nutrition_of 160 7 6 14),
     (str ''protein bar'', nutrition_of 200 20 20 7),
     (str ''smoothie'', nutrition_of 250 10 40 5)]"

text \<open>
  The quantity words, in the order in which \<open>Object.entries\<close> lists them: the keys that
  are array indices (\<open>2\<close>, \<open>3\<close>, \<open>4\<close>) come first, in ascending order, and the other
  keys follow in the order of the object literal.
\<close>

definition quantities :: "(jsstring \<times> jsnum) list" where
  "quantities =
    [(str ''2'', Fin 2),
     (str ''3'', Fin 3),
     (str ''4'', Fin 4),
     (str ''two'', Fin 2),
     (str ''three'', Fin 3),
     (str ''four'', Fin 4),
     (str ''double'', Fin 2),
     (str ''large'', Fin (3 / 2)),
     (str ''small'', Fin (3 / 4)),
     (str ''half'', Fin (1 / 2))]"

text \<open>
  The inner loop: the value of the first quantity word whose pattern matches the
  description, or 1.
\<close>

fun find_multiplier :: "jsstring \<Rightarrow> jsstring \<Rightarrow> (jsstring \<times> jsnum) list \<Rightarrow> jsnum" where
  "find_multiplier lowerDesc food [] = Fin 1"
| "find_multiplier lowerDesc food ((quantityWord, v) # rest) =
     (if regex_test quantityWord food lowerDesc then v
      else find_multiplier lowerDesc food rest)"

record totals =
  totalCalories :: jsnum
  totalProtein :: jsnum
  totalCarbs :: jsnum
  totalFat :: jsnum
  matchCount :: nat

definition no_totals :: totals where
  "no_totals =
     \<lparr>totalCalories = Fin 0, totalProtein = Fin 0, totalCarbs = Fin 0, totalFat = Fin 0,
      matchCount = 0\<rparr>"

text \<open>One round of the outer loop, for one entry of the food table.\<close>

definition scan_food :: "jsstring \<Rightarrow> jsstring \<times> ParsedMeal \<Rightarrow> totals \<Rightarrow> totals" where
  "scan_food lowerDesc entry t =
     (let food = fst entry; nutrition = snd entry in
      if includes_str lowerDesc food then
        (let multiplier = find_multiplier lowerDesc food quantities in
         \<lparr>totalCalories = js_add (totalCalories t) (js_mul (or0 (calories nutrition)) multiplier),
          totalProtein = js_add (totalProtein t) (js_mul (or0 (protein nutrition)) multiplier),
          totalCarbs = js_add (totalCarbs t) (js_mul (or0 (carbs nutrition)) multiplier),
          totalFat = js_add (totalFat t) (js_mul (or0 (fat nutrition)) multiplier),
          matchCount = matchCount t + 1\<rparr>)
      else t)"

definition scan_foods :: "jsstring \<Rightarrow> (jsstring \<times> ParsedMeal) list \<Rightarrow> totals" where
  "scan_foods lowerDesc db = fold (scan_food lowerDesc) db no_totals"

text \<open>The estimate for a description in which no food was found.\<close>

definition generic_estimate :: "jsstring \<Rightarrow> ParsedMeal" where
  "generic_estimate mealDescription =
     (let words = length (split_str 0x20 mealDescription);
          baseCals = Math_min (Fin (of_nat (100 + words * 50))) (Fin 800)
      in \<lparr>calories = Some baseCals,
          protein = Some (Math_round (js_div (js_mul baseCals (Fin (15 / 100))) (Fin 4))),
          carbs = Some (Math_round (js_div (js_mul baseCals (Fin (5 / 10))) (Fin 4))),
          fat = Some (Math_round (js_div (js_mul baseCals (Fin (35 / 100))) (Fin 9))),
          confidence = Some (Fin (3 / 10))\<rparr>)"

text \<open>The calories that the three macronutrients of an estimate stand for.\<close>

definition implied_calories :: "ParsedMeal \<Rightarrow> jsnum" where
  "implied_calories r =
     js_add (js_add (js_mul (the (protein r)) (Fin 4)) (js_mul (the (carbs r)) (Fin 4)))
       (js_mul (the (fat r)) (Fin 9))"

text \<open>The last step: the macronutrients are rescaled when they are off by more than 20%.\<close>

definition reconcile :: "ParsedMeal \<Rightarrow> ParsedMeal" where
  "reconcile result =
     (let calculatedCals = implied_calories result;
          calorieDiff = Math_abs (js_sub calculatedCals (the (calories result)))
      in if js_gt calorieDiff (js_mul (the (calories result)) (Fin (2 / 10))) then
           (let ratio = js_div (the (calories result)) calculatedCals in
            result\<lparr>protein := Some (Math_round (js_mul (the (protein result)) ratio)),
                   carbs := Some (Math_round (js_mul (the (carbs result)) ratio)),
                   fat := Some (Math_round (js_mul (the (fat result)) ratio))\<rparr>)
         else result)"

definition rounded_totals :: "totals \<Rightarrow> ParsedMeal" where
  "rounded_totals t =
     \<lparr>calories = Some (Math_round (totalCalories t)),
      protein = Some (Math_round (totalProtein t)),
      carbs = Some (Math_round (totalCarbs t)),
      fat = Some (Math_round (totalFat t)),
      confidence = Some (Math_min (Fin (9 / 10))
        (js_add (Fin (3 / 10)) (js_mul (Fin (of_nat (matchCount t))) (Fin (2 / 10)))))\<rparr>"

definition estimate :: "jsstring \<Rightarrow> jsstring \<Rightarrow> ParsedMeal" where
  "estimate lowerDesc mealDescription =
     (let t = scan_foods lowerDesc mockFoodDatabase in
      if matchCount t = 0 then generic_estimate mealDescription
      else reconcile (rounded_totals t))"

text \<open>
  \<open>parseMeal\<close> is asynchronous: it waits half a second and then computes the estimate,
  which is the value of the promise it returns. The wait is left out. \<open>estimate\<close> is the
  body of the function after the lowercase form of the description has been taken.
\<close>

definition parseMeal :: "jsstring \<Rightarrow> ParsedMeal" where
  "parseMeal mealDescription = estimate (toLowerCase mealDescription) mealDescription"

section \<open>Display and totals\<close>

text \<open>
  A template literal turns a number into a string with the conversion of the language,
  which the formatter takes here as the parameter \<open>toString\<close>: what is proved of the
  formatter holds for every conversion. \<open>Number_toString\<close> is the conversion on the
  numbers of the examples: a whole number below \<open>10^21\<close> in magnitude is printed in
  decimal, and the special values by their names. A number with a fraction is printed by
  the language with the shortest digits that read back as the same double, which exact
  rationals cannot say; \<open>Number_toString\<close> prints its integer part and is not used on it.
\<close>

fun digits :: "nat \<Rightarrow> jsstring" where
  "digits n = (if n < 10 then [of_nat (48 + n)] else digits (n div 10) @ [of_nat (48 + n mod 10)])"

fun Number_toString :: "jsnum \<Rightarrow> jsstring" where
  "Number_toString (Fin a) = (if a < 0 then str ''-'' else []) @ digits (nat \<lfloor>\<bar>a\<bar>\<rfloor>)"
| "Number_toString PosInf = str ''Infinity''"
| "Number_toString NegInf = str ''-Infinity''"
| "Number_toString NaN = str ''NaN''"

text \<open>
  The delimiter of the parts, as the source file has it: a space, the three characters
  U+00E2, U+20AC and U+00A2 (the UTF-8 bytes of the bullet U+2022 read as Windows-1252)
  and a space.
\<close>

definition delimiter :: jsstring where
  "delimiter = [0x20, 0xE2, 0x20AC, 0xA2, 0x20]"

definition formatParsedMeal :: "(jsnum \<Rightarrow> jsstring) \<Rightarrow> ParsedMeal \<Rightarrow> jsstring" where
  "formatParsedMeal toString parsed =
     (if \<not> truthy (calories parsed) then str ''Unable to parse meal''
      else
        (let parts0 = [toString (the (calories parsed)) @ str '' cal''];
             parts1 = (if truthy (protein parsed)
                       then parts0 @ [toString (the (protein parsed)) @ str ''g protein'']
                       else parts0);
             parts2 = (if truthy (carbs parsed)
                       then parts1 @ [toString (the (carbs parsed)) @ str ''g carbs'']
                       else parts1);
             parts3 = (if truthy (fat parsed)
                       then parts2 @ [toString (the (fat parsed)) @ str ''g fat'']
                       else parts2)
         in join_str delimiter parts3))"

text \<open>
  \<open>calculateTotals\<close> reduces the meals from the left, starting from four zeros; the
  objects it builds have no confidence. Each step adds two doubles, and the sum rounds.
\<close>

definition add_meal :: "ParsedMeal \<Rightarrow> ParsedMeal \<Rightarrow> ParsedMeal" where
  "add_meal acc meal =
     \<lparr>calories = Some (double_add (or0 (calories acc)) (or0 (calories meal))),
      protein = Some (double_add (or0 (protein acc)) (or0 (protein meal))),
      carbs = Some (double_add (or0 (carbs acc)) (or0 (carbs meal))),
      fat = Some (double_add (or0 (fat acc)) (or0 (fat meal))),
      confidence = None\<rparr>"

definition zero_meal :: ParsedMeal where
  "zero_meal =
     \<lparr>calories = Some (Fin 0), protein = Some (Fin 0), carbs = Some (Fin 0),
      fat = Some (Fin 0), confidence = None\<rparr>"

definition calculateTotals :: "ParsedMeal list \<Rightarrow> ParsedMeal" where
  "calculateTotals meals = foldl add_meal zero_meal meals"

section \<open>Notions of the specification\<close>

text \<open>The value of a finite number.\<close>

fun fin :: "jsnum \<Rightarrow> rat" where
  "fin (Fin a) = a"
| "fin x = 0"

text \<open>
  A word \<open>q\<close> stands next to a phrase \<open>f\<close> in \<open>s\<close>: one comes right after the other,
  in either order, with nothing but whitespace (and at least one unit of it) in between.
\<close>

definition adjacent :: "jsstring \<Rightarrow> jsstring \<Rightarrow> jsstring \<Rightarrow> bool" where
  "adjacent q f s \<longleftrightarrow>
     (\<exists>pre ws post. ws \<noteq> [] \<and> list_all is_space ws \<and>
        (s = pre @ q @ ws @ f @ post \<or> s = pre @ f @ ws @ q @ post))"

text \<open>The entries of the food table whose key occurs in the description.\<close>

definition matched :: "jsstring \<Rightarrow> (jsstring \<times> ParsedMeal) list" where
  "matched lowerDesc = filter (\<lambda>entry. includes_str lowerDesc (fst entry)) mockFoodDatabase"

text \<open>What one entry adds to a total: its number for the field times its multiplier.\<close>

definition contribution ::
  "jsstring \<Rightarrow> (ParsedMeal \<Rightarrow> jsnum option) \<Rightarrow> jsstring \<times> ParsedMeal \<Rightarrow> rat" where
  "contribution lowerDesc field entry =
     fin (or0 (field (snd entry))) * fin (find_multiplier lowerDesc (fst entry) quantities)"

text \<open>
  The word count in the words of the specification, which splits the description on
  whitespace and counts the empty string as one word: every whitespace unit separates.
\<close>

definition whitespace_words :: "jsstring \<Rightarrow> nat" where
  "whitespace_words s = Suc (length (filter is_space s))"

text \<open>
  The tolerance of the specification: the calories implied by the macronutrients are
  within 20% of the calories, up to \<open>eps\<close>. As in JavaScript, a comparison with NaN is
  false.
\<close>

definition within_tolerance :: "rat \<Rightarrow> ParsedMeal \<Rightarrow> bool" where
  "within_tolerance eps r =
     js_le (Math_abs (js_sub (implied_calories r) (the (calories r))))
       (js_add (js_mul (the (calories r)) (Fin (2 / 10))) (Fin eps))"

text \<open>An entry with four finite, non-negative numbers, the calories at least 2.\<close>

definition plain_entry :: "jsstring \<times> ParsedMeal \<Rightarrow> bool" where
  "plain_entry entry \<longleftrightarrow>
     (\<exists>cal. calories (snd entry) = Some (Fin cal) \<and> 2 \<le> cal) \<and>
     (\<exists>p. protein (snd entry) = Some (Fin p) \<and> 0 \<le> p) \<and>
     (\<exists>c. carbs (snd entry) = Some (Fin c) \<and> 0 \<le> c) \<and>
     (\<exists>f. fat (snd entry) = Some (Fin f) \<and> 0 \<le> f)"

text \<open>The part of an optional number: nothing when it is absent.\<close>

definition part_of :: "(jsnum \<Rightarrow> jsstring) \<Rightarrow> jsnum option \<Rightarrow> jsstring \<Rightarrow> jsstring list" where
  "part_of toString v unit = (case v of None \<Rightarrow> [] | Some x \<Rightarrow> [toString x @ unit])"

text \<open>
  What the line has for a field: its part, and nothing when it is absent. Whether a
  field that is 0 or NaN has its part is left open.
\<close>

definition shown_part ::
  "(jsnum \<Rightarrow> jsstring) \<Rightarrow> jsnum option \<Rightarrow> jsstring \<Rightarrow> jsstring list \<Rightarrow> bool" where
  "shown_part toString v unit ps \<longleftrightarrow>
     ps = part_of toString v unit \<or> (ps = [] \<and> (v = Some (Fin 0) \<or> v = Some NaN))"

text \<open>
  The parts \<open>500 cal\<close>, \<open>30g protein\<close>, \<open>50g carbs\<close> and \<open>20g fat\<close> with the
  delimiter between them.
\<close>

definition example_line :: jsstring where
  "example_line =
     str ''500 cal'' @ delimiter @ str ''30g protein'' @ delimiter @ str ''50g carbs'' @
     delimiter @ str ''20g fat''"

text \<open>A meal of which only the calories are known.\<close>

definition only_calories :: "jsnum \<Rightarrow> ParsedMeal" where
  "only_calories x =
     \<lparr>calories = Some x, protein = None, carbs = None, fat = None, confidence = None\<rparr>"






text \<open>The multipliers that the quantity table can give.\<close>

definition multipliers :: "rat list" where
  "multipliers = [1, 2, 3, 4, 3 / 2, 3 / 4, 1 / 2]"

text \<open>The four numbers of an entry of the food table.\<close>

definition entry_numbers :: "jsstring \<times> ParsedMeal \<Rightarrow> rat \<times> rat \<times> rat \<times> rat" where
  "entry_numbers entry =
     (fin (or0 (calories (snd entry))), fin (or0 (protein (snd entry))),
      fin (or0 (carbs (snd entry))), fin (or0 (fat (snd entry))))"

definition add_scaled ::
  "rat \<Rightarrow> rat \<times> rat \<times> rat \<times> rat \<Rightarrow> rat \<times> rat \<times> rat \<times> rat \<Rightarrow> rat \<times> rat \<times> rat \<times> rat" where
  "add_scaled m q t =
     (case q of (qa, qb, qc, qd) \<Rightarrow> case t of (a, b, c, d) \<Rightarrow>
        (a + qa * m, b + qb * m, c + qc * m, d + qd * m))"

text \<open>
  The totals, before rounding, that a part of the food table can reach with fewer than
  \<open>bound\<close> calories: each entry is left out or taken with one of the multipliers.
\<close>

fun reachable :: "rat \<Rightarrow> (jsstring \<times> ParsedMeal) list \<Rightarrow> (rat \<times> rat \<times> rat \<times> rat) list" where
  "reachable bound [] = [(0, 0, 0, 0)]"
| "reachable bound (entry # entries) =
     (let R = reachable bound entries; q = entry_numbers entry in
      if bound \<le> fst q / 2 then R
      else R @ concat (map (\<lambda>m. map (add_scaled m q)
                  (filter (\<lambda>t. fst t + fst q * m < bound) R)) multipliers))"

text \<open>
  The result of the last step for given totals is within the 20%, unless the rounded
  macronutrients are all zero.
\<close>

definition totals_ok :: "rat \<times> rat \<times> rat \<times> rat \<Rightarrow> bool" where
  "totals_ok t =
     (case t of (a, b, c, d) \<Rightarrow>
        (let r = \<lparr>calories = Some (Math_round (Fin a)), protein = Some (Math_round (Fin b)),
                  carbs = Some (Math_round (Fin c)), fat = Some (Math_round (Fin d)),
                  confidence = None\<rparr>
         in implied_calories r = Fin 0 \<or> within_tolerance 0 (reconcile r)))"

section \<open>Rules for evaluating the model on concrete input\<close>

lemma floor_numeral_div: "\<lfloor>numeral a / numeral b :: rat\<rfloor> = numeral a div numeral b"
  using floor_divide_of_int_eq [of "numeral a" "numeral b", where ?'a = rat] by simp

lemma floor_one_div: "\<lfloor>1 / numeral b :: rat\<rfloor> = 1 div numeral b"
  using floor_divide_of_int_eq [of 1 "numeral b", where ?'a = rat] by simp

lemma spaces_then_if:
  "spaces_then f (c # cs) =
     (if is_space c then (if prefix f cs then True else spaces_then f cs) else False)"
  by simp

lemma seq_at_if:
  "seq_at a b t = (if prefix a t then spaces_then b (drop (length a) t) else False)"
  by (simp add: seq_at_def)

lemma regex_test_if:
  "regex_test q f (c # cs) =
     (if seq_at q f (c # cs) then True
      else if seq_at f q (c # cs) then True else regex_test q f cs)"
  by simp

lemma prefix_Cons_if: "prefix (x # xs) (y # ys) = (if x = y then prefix xs ys else False)"
  by simp

lemma includes_str_if:
  "includes_str (c # cs) t = (if prefix t (c # cs) then True else includes_str cs t)"
  by simp

lemmas lazy_eval =
  spaces_then_if seq_at_if regex_test_if prefix_Cons_if includes_str_if
  floor_numeral_div floor_one_div

lemmas eager_eval =
  spaces_then.simps(2) regex_test.simps(2) Cons_prefix_Cons includes_str.simps(2)

lemmas parser_eval =
  str_def parseMeal_def estimate_def scan_foods_def scan_food_def mockFoodDatabase_def
  quantities_def nutrition_of_def no_totals_def toLowerCase_def lower_units_def is_space_def
  or0_def rounded_totals_def reconcile_def implied_calories_def generic_estimate_def
  js_sub_def Math_min_def inf_of_sign_def Let_def

section \<open>What the string operations compute\<close>

lemma includes_str_sublist: "includes_str s t \<longleftrightarrow> sublist t s"
  by (induction s) (simp_all add: sublist_Cons_right)

lemma includes_str_iff: "includes_str s t \<longleftrightarrow> (\<exists>pre post. s = pre @ t @ post)"
  by (simp add: includes_str_sublist sublist_def)

lemma length_split_str: "length (split_str sep s) = Suc (length (filter (\<lambda>c. c = sep) s))"
  by (induction s) (auto split: list.splits)

lemma spaces_then_iff:
  "spaces_then f t \<longleftrightarrow>
     (\<exists>ws rest. ws \<noteq> [] \<and> list_all is_space ws \<and> t = ws @ f @ rest)"
proof (induction t)
  case Nil
  show ?case by simp
next
  case (Cons c cs)
  show ?case
  proof
    assume "spaces_then f (c # cs)"
    then have sp: "is_space c" and rest: "prefix f cs \<or> spaces_then f cs" by simp_all
    from rest show "\<exists>ws rest. ws \<noteq> [] \<and> list_all is_space ws \<and> c # cs = ws @ f @ rest"
    proof
      assume "prefix f cs"
      then obtain r where "cs = f @ r" by (auto simp: prefix_def)
      with sp have "[c] \<noteq> [] \<and> list_all is_space [c] \<and> c # cs = [c] @ f @ r" by simp
      then show ?thesis by blast
    next
      assume "spaces_then f cs"
      with Cons obtain ws r where "ws \<noteq> []" "list_all is_space ws" "cs = ws @ f @ r" by blast
      with sp have "c # ws \<noteq> [] \<and> list_all is_space (c # ws) \<and> c # cs = (c # ws) @ f @ r"
        by simp
      then show ?thesis by blast
    qed
  next
    assume "\<exists>ws rest. ws \<noteq> [] \<and> list_all is_space ws \<and> c # cs = ws @ f @ rest"
    then obtain ws r where ws: "ws \<noteq> []" "list_all is_space ws" "c # cs = ws @ f @ r" by blast
    then obtain w ws' where w: "ws = w # ws'" by (cases ws) auto
    with ws have c: "w = c" "is_space c" "list_all is_space ws'" "cs = ws' @ f @ r" by auto
    show "spaces_then f (c # cs)"
    proof (cases "ws' = []")
      case True
      with c show ?thesis by (simp add: prefix_def)
    next
      case False
      with c Cons have "spaces_then f cs" by blast
      with c show ?thesis by simp
    qed
  qed
qed

lemma seq_at_iff:
  "seq_at a b t \<longleftrightarrow>
     (\<exists>ws rest. ws \<noteq> [] \<and> list_all is_space ws \<and> t = a @ ws @ b @ rest)"
proof
  assume "seq_at a b t"
  then have "prefix a t" and "spaces_then b (drop (length a) t)" by (simp_all add: seq_at_def)
  then obtain r where t: "t = a @ r" and "spaces_then b r" by (auto simp: prefix_def)
  then obtain ws rest where "ws \<noteq> []" "list_all is_space ws" "r = ws @ b @ rest"
    by (auto simp: spaces_then_iff)
  with t show "\<exists>ws rest. ws \<noteq> [] \<and> list_all is_space ws \<and> t = a @ ws @ b @ rest" by blast
next
  assume "\<exists>ws rest. ws \<noteq> [] \<and> list_all is_space ws \<and> t = a @ ws @ b @ rest"
  then obtain ws rest where "ws \<noteq> []" "list_all is_space ws" "t = a @ ws @ b @ rest" by blast
  then show "seq_at a b t" by (auto simp: seq_at_def spaces_then_iff)
qed

lemma regex_test_suffix:
  "regex_test q f s \<longleftrightarrow> (\<exists>pre t. s = pre @ t \<and> (seq_at q f t \<or> seq_at f q t))"
proof (induction s)
  case Nil
  show ?case by simp
next
  case (Cons c cs)
  show ?case
  proof
    assume "regex_test q f (c # cs)"
    then consider "seq_at q f (c # cs) \<or> seq_at f q (c # cs)" | "regex_test q f cs" by auto
    then show "\<exists>pre t. c # cs = pre @ t \<and> (seq_at q f t \<or> seq_at f q t)"
    proof cases
      case 1
      then have "c # cs = [] @ (c # cs) \<and> (seq_at q f (c # cs) \<or> seq_at f q (c # cs))" by simp
      then show ?thesis by blast
    next
      case 2
      with Cons obtain pre t where "cs = pre @ t" "seq_at q f t \<or> seq_at f q t" by blast
      then have "c # cs = (c # pre) @ t \<and> (seq_at q f t \<or> seq_at f q t)" by simp
      then show ?thesis by blast
    qed
  next
    assume "\<exists>pre t. c # cs = pre @ t \<and> (seq_at q f t \<or> seq_at f q t)"
    then obtain pre t where pt: "c # cs = pre @ t" "seq_at q f t \<or> seq_at f q t" by blast
    show "regex_test q f (c # cs)"
    proof (cases pre)
      case Nil
      with pt show ?thesis by auto
    next
      case (Cons p pre')
      with pt have "cs = pre' @ t" by simp
      with pt Cons.IH have "regex_test q f cs" by blast
      then show ?thesis by simp
    qed
  qed
qed

section \<open>The two lexicons\<close>

lemma or0_Fin [simp]: "or0 (Some (Fin a)) = Fin a"
  by (simp add: or0_def)

lemma or0_None [simp]: "or0 None = Fin 0"
  by (simp add: or0_def)

lemma or0_NaN [simp]: "or0 (Some NaN) = Fin 0"
  by (simp add: or0_def)

lemma food_entries_plain: "list_all plain_entry mockFoodDatabase"
  by (simp add: mockFoodDatabase_def nutrition_of_def plain_entry_def)

text \<open>The multiplier found for a food is one of the values of the quantity table, or 1.\<close>

lemma find_multiplier_bounds:
  "list_all (\<lambda>(q, v). v = Fin (fin v) \<and> 1 / 2 \<le> fin v) qs \<Longrightarrow>
   find_multiplier lowerDesc food qs = Fin (fin (find_multiplier lowerDesc food qs)) \<and>
   1 / 2 \<le> fin (find_multiplier lowerDesc food qs)"
  by (induction qs) auto

lemma multiplier_finite:
  "\<exists>m. find_multiplier lowerDesc food quantities = Fin m \<and> 1 / 2 \<le> m"
proof -
  have "list_all (\<lambda>(q, v). v = Fin (fin v) \<and> 1 / 2 \<le> fin v) quantities"
    by (simp add: quantities_def)
  from find_multiplier_bounds [OF this] show ?thesis by blast
qed

lemma find_multiplier_find:
  "find_multiplier lowerDesc food qs =
     (case find (\<lambda>(q, v). regex_test q food lowerDesc) qs of
        None \<Rightarrow> Fin 1 | Some (q, v) \<Rightarrow> v)"
  by (induction qs) auto

lemma regex_test_adjacent: "regex_test q f s \<longleftrightarrow> adjacent q f s"
proof
  assume "regex_test q f s"
  then obtain pre t where s: "s = pre @ t" and "seq_at q f t \<or> seq_at f q t"
    by (auto simp: regex_test_suffix)
  then obtain ws post where "ws \<noteq> []" "list_all is_space ws"
      "t = q @ ws @ f @ post \<or> t = f @ ws @ q @ post"
    by (auto simp: seq_at_iff)
  with s show "adjacent q f s" unfolding adjacent_def by blast
next
  assume "adjacent q f s"
  then obtain pre ws post where ws: "ws \<noteq> []" "list_all is_space ws"
      and s: "s = pre @ q @ ws @ f @ post \<or> s = pre @ f @ ws @ q @ post"
    unfolding adjacent_def by blast
  from s show "regex_test q f s"
  proof
    assume "s = pre @ q @ ws @ f @ post"
    moreover from ws have "seq_at q f (q @ ws @ f @ post)" unfolding seq_at_iff by blast
    ultimately show ?thesis unfolding regex_test_suffix by blast
  next
    assume "s = pre @ f @ ws @ q @ post"
    moreover from ws have "seq_at f q (f @ ws @ q @ post)" unfolding seq_at_iff by blast
    ultimately show ?thesis unfolding regex_test_suffix by blast
  qed
qed

section \<open>The loop over the food table\<close>

lemma scan_food_miss: "\<not> includes_str lowerDesc (fst entry) \<Longrightarrow> scan_food lowerDesc entry t = t"
  by (simp add: scan_food_def)

lemma scan_food_hit:
  assumes "includes_str lowerDesc (fst entry)" and "plain_entry entry"
  shows "scan_food lowerDesc entry
           \<lparr>totalCalories = Fin a, totalProtein = Fin b, totalCarbs = Fin c, totalFat = Fin d,
            matchCount = n\<rparr> =
         \<lparr>totalCalories = Fin (a + contribution lowerDesc calories entry),
          totalProtein = Fin (b + contribution lowerDesc protein entry),
          totalCarbs = Fin (c + contribution lowerDesc carbs entry),
          totalFat = Fin (d + contribution lowerDesc fat entry),
          matchCount = Suc n\<rparr>"
proof -
  obtain m where m: "find_multiplier lowerDesc (fst entry) quantities = Fin m"
    using multiplier_finite by blast
  from assms(2) obtain cal p cb f where
    "calories (snd entry) = Some (Fin cal)" "protein (snd entry) = Some (Fin p)"
    "carbs (snd entry) = Some (Fin cb)" "fat (snd entry) = Some (Fin f)"
    unfolding plain_entry_def by blast
  with assms(1) m show ?thesis
    by (simp add: scan_food_def contribution_def)
qed

lemma fold_scan_food:
  "list_all plain_entry db \<Longrightarrow>
   fold (scan_food lowerDesc) db
     \<lparr>totalCalories = Fin a, totalProtein = Fin b, totalCarbs = Fin c, totalFat = Fin d,
      matchCount = n\<rparr> =
   (let hits = filter (\<lambda>entry. includes_str lowerDesc (fst entry)) db in
    \<lparr>totalCalories = Fin (a + sum_list (map (contribution lowerDesc calories) hits)),
     totalProtein = Fin (b + sum_list (map (contribution lowerDesc protein) hits)),
     totalCarbs = Fin (c + sum_list (map (contribution lowerDesc carbs) hits)),
     totalFat = Fin (d + sum_list (map (contribution lowerDesc fat) hits)),
     matchCount = n + length hits\<rparr>)"
proof (induction db arbitrary: a b c d n)
  case Nil
  show ?case by simp
next
  case (Cons entry db)
  then have plain: "plain_entry entry" and rest: "list_all plain_entry db" by simp_all
  show ?case
  proof (cases "includes_str lowerDesc (fst entry)")
    case True
    with plain rest show ?thesis
      by (simp add: scan_food_hit Cons.IH Let_def add.assoc)
  next
    case False
    with rest show ?thesis
      by (simp add: scan_food_miss Cons.IH)
  qed
qed

lemma scan_foods_closed:
  "scan_foods lowerDesc mockFoodDatabase =
     \<lparr>totalCalories = Fin (sum_list (map (contribution lowerDesc calories) (matched lowerDesc))),
      totalProtein = Fin (sum_list (map (contribution lowerDesc protein) (matched lowerDesc))),
      totalCarbs = Fin (sum_list (map (contribution lowerDesc carbs) (matched lowerDesc))),
      totalFat = Fin (sum_list (map (contribution lowerDesc fat) (matched lowerDesc))),
      matchCount = length (matched lowerDesc)\<rparr>"
  using fold_scan_food [OF food_entries_plain, of lowerDesc 0 0 0 0 0]
  by (simp add: scan_foods_def no_totals_def matched_def Let_def)

section \<open>Bounds on the totals\<close>

lemma matched_plain: "list_all plain_entry (matched lowerDesc)"
  using food_entries_plain by (simp add: matched_def list_all_iff)

lemma contribution_calories:
  assumes "plain_entry entry"
  shows "1 \<le> contribution lowerDesc calories entry"
proof -
  obtain m where m: "find_multiplier lowerDesc (fst entry) quantities = Fin m" "1 / 2 \<le> m"
    using multiplier_finite by blast
  from assms obtain cal where cal: "calories (snd entry) = Some (Fin cal)" "2 \<le> cal"
    unfolding plain_entry_def by blast
  have "2 * (1 / 2) \<le> cal * m"
    using cal(2) m(2) by (intro mult_mono) simp_all
  with m cal show ?thesis by (simp add: contribution_def)
qed

lemma sum_calories_matched:
  "list_all plain_entry es \<Longrightarrow>
   of_nat (length es) \<le> sum_list (map (contribution lowerDesc calories) es)"
proof (induction es)
  case Nil
  show ?case by simp
next
  case (Cons e es)
  then have "1 \<le> contribution lowerDesc calories e"
    and "of_nat (length es) \<le> sum_list (map (contribution lowerDesc calories) es)"
    by (simp_all add: contribution_calories)
  then show ?case by simp
qed

lemma reconcile_calories [simp]: "calories (reconcile r) = calories r"
  by (simp add: reconcile_def Let_def)

lemma reconcile_confidence [simp]: "confidence (reconcile r) = confidence r"
  by (simp add: reconcile_def Let_def)

lemma round_ge_1: "1 \<le> (a :: rat) \<Longrightarrow> 1 \<le> \<lfloor>a + 1 / 2\<rfloor>"
  by linarith

text \<open>With at least one food found, the calories are a whole number, 1 or more.\<close>

lemma match_path_calories:
  assumes "matched lowerDesc \<noteq> []"
  shows "\<exists>k. calories (reconcile (rounded_totals (scan_foods lowerDesc mockFoodDatabase))) =
           Some (Fin (of_int k)) \<and> 1 \<le> k"
proof -
  let ?total = "sum_list (map (contribution lowerDesc calories) (matched lowerDesc))"
  from assms have "1 \<le> length (matched lowerDesc)" by (cases "matched lowerDesc") simp_all
  then have "(1 :: rat) \<le> of_nat (length (matched lowerDesc))" by simp
  also have "\<dots> \<le> ?total" by (rule sum_calories_matched [OF matched_plain])
  finally have "1 \<le> \<lfloor>?total + 1 / 2\<rfloor>" by (rule round_ge_1)
  then show ?thesis by (simp add: scan_foods_closed rounded_totals_def)
qed

section \<open>The estimate without a match\<close>

lemma generic_estimate_closed:
  "generic_estimate s =
     (let cal = min (of_nat (100 + length (split_str 0x20 s) * 50)) (800 :: rat) in
      \<lparr>calories = Some (Fin cal),
       protein = Some (Fin (of_int \<lfloor>cal * (15 / 100) / 4 + 1 / 2\<rfloor>)),
       carbs = Some (Fin (of_int \<lfloor>cal * (5 / 10) / 4 + 1 / 2\<rfloor>)),
       fat = Some (Fin (of_int \<lfloor>cal * (35 / 100) / 9 + 1 / 2\<rfloor>)),
       confidence = Some (Fin (3 / 10))\<rparr>)"
  by (simp add: generic_estimate_def Math_min_def Let_def min_def)

lemma generic_estimate_calories:
  "\<exists>k. calories (generic_estimate s) = Some (Fin (of_int k)) \<and> 150 \<le> k"
proof -
  let ?w = "length (split_str 0x20 s)"
  have w: "1 \<le> ?w" by (simp add: length_split_str)
  have cal: "calories (generic_estimate s) = Some (Fin (min (of_nat (100 + ?w * 50)) 800))"
    by (simp add: generic_estimate_closed Let_def)
  have "min (of_nat (100 + ?w * 50)) (800 :: rat) = of_int (min (int (100 + ?w * 50)) 800)"
    by (simp add: min_def)
  moreover have "150 \<le> min (int (100 + ?w * 50)) 800" using w by simp
  ultimately show ?thesis using cal by metis
qed

lemma matchCount_matched: "matchCount (scan_foods lowerDesc mockFoodDatabase) = length (matched lowerDesc)"
  by (simp add: scan_foods_closed)

lemma estimate_cases:
  "estimate lowerDesc s =
     (if matched lowerDesc = [] then generic_estimate s
      else reconcile (rounded_totals (scan_foods lowerDesc mockFoodDatabase)))"
  by (simp add: estimate_def Let_def matchCount_matched)

lemma estimate_calories:
  "\<exists>k. calories (estimate lowerDesc s) = Some (Fin (of_int k)) \<and> 1 \<le> k \<and>
     (matched lowerDesc = [] \<longrightarrow> 150 \<le> k)"
proof (cases "matched lowerDesc = []")
  case True
  obtain k where "calories (generic_estimate s) = Some (Fin (of_int k))" "150 \<le> k"
    using generic_estimate_calories by blast
  with True show ?thesis by (auto simp: estimate_cases)
next
  case False
  from match_path_calories [OF this] show ?thesis using False by (simp add: estimate_cases)
qed

text \<open>
  C4. For every string the parser returns an estimate whose calories are a number that is
  not negative (and so neither NaN nor absent). The parser has no failing branch: it is a
  total function.
\<close>

theorem parseMeal_calories_nonneg:
  "\<exists>a. calories (parseMeal s) = Some (Fin a) \<and> 0 \<le> a"
proof -
  obtain k where "calories (estimate (toLowerCase s) s) = Some (Fin (of_int k))" "1 \<le> k"
    using estimate_calories by blast
  then have "calories (parseMeal s) = Some (Fin (of_int k)) \<and> (0 :: rat) \<le> of_int k"
    by (simp add: parseMeal_def)
  then show ?thesis by blast
qed

section \<open>Matching and multipliers\<close>

lemma includes_str_append: "includes_str s (a @ b) \<Longrightarrow> includes_str s a"
proof -
  assume "includes_str s (a @ b)"
  then obtain pre post where "s = pre @ (a @ b) @ post" unfolding includes_str_iff by blast
  then have "s = pre @ a @ (b @ post)" by simp
  then show ?thesis unfolding includes_str_iff by blast
qed

lemma chicken_breast_chicken:
  "includes_str s (str ''chicken breast'') \<Longrightarrow> includes_str s (str ''chicken'')"
proof -
  have "str ''chicken breast'' = str ''chicken'' @ str '' breast''" by (simp add: str_def)
  then show "includes_str s (str ''chicken breast'') \<Longrightarrow> includes_str s (str ''chicken'')"
    using includes_str_append by metis
qed

lemma chicken_entries:
  "(str ''chicken'', nutrition_of 165 31 0 4) \<in> set mockFoodDatabase"
  "(str ''chicken breast'', nutrition_of 165 31 0 4) \<in> set mockFoodDatabase"
  by (simp_all add: mockFoodDatabase_def)

text \<open>
  C5. The loop over the food table leaves in each total the sum, over all the entries
  whose key occurs in the lowercased description, of the entry's number times its
  multiplier, and in the match count the number of these entries; an entry whose key
  lies inside another matched key counts like any other. A description with
  \<open>chicken breast\<close> in it is matched by the entries \<open>chicken\<close> and \<open>chicken breast\<close>
  both, and \<open>chicken and rice\<close> gives 370 calories, 35 protein, 45 carbs and 4 fat.
\<close>

theorem overlapping_matches_all_count:
  "scan_foods lowerDesc mockFoodDatabase =
     \<lparr>totalCalories = Fin (sum_list (map (contribution lowerDesc calories) (matched lowerDesc))),
      totalProtein = Fin (sum_list (map (contribution lowerDesc protein) (matched lowerDesc))),
      totalCarbs = Fin (sum_list (map (contribution lowerDesc carbs) (matched lowerDesc))),
      totalFat = Fin (sum_list (map (contribution lowerDesc fat) (matched lowerDesc))),
      matchCount = length (matched lowerDesc)\<rparr> \<and>
   set (matched lowerDesc) =
     {entry. entry \<in> set mockFoodDatabase \<and> (\<exists>pre post. lowerDesc = pre @ fst entry @ post)} \<and>
   (includes_str lowerDesc (str ''chicken breast'') \<longrightarrow>
      (str ''chicken'', nutrition_of 165 31 0 4) \<in> set (matched lowerDesc) \<and>
      (str ''chicken breast'', nutrition_of 165 31 0 4) \<in> set (matched lowerDesc)) \<and>
   parseMeal (str ''chicken and rice'') =
     \<lparr>calories = Some (Fin 370), protein = Some (Fin 35), carbs = Some (Fin 45),
      fat = Some (Fin 4), confidence = Some (Fin (7 / 10))\<rparr>"
proof (intro conjI impI)
  show "scan_foods lowerDesc mockFoodDatabase =
     \<lparr>totalCalories = Fin (sum_list (map (contribution lowerDesc calories) (matched lowerDesc))),
      totalProtein = Fin (sum_list (map (contribution lowerDesc protein) (matched lowerDesc))),
      totalCarbs = Fin (sum_list (map (contribution lowerDesc carbs) (matched lowerDesc))),
      totalFat = Fin (sum_list (map (contribution lowerDesc fat) (matched lowerDesc))),
      matchCount = length (matched lowerDesc)\<rparr>"
    by (rule scan_foods_closed)
next
  show "set (matched lowerDesc) =
     {entry. entry \<in> set mockFoodDatabase \<and> (\<exists>pre post. lowerDesc = pre @ fst entry @ post)}"
    by (auto simp: matched_def includes_str_iff)
next
  assume "includes_str lowerDesc (str ''chicken breast'')"
  then show "(str ''chicken'', nutrition_of 165 31 0 4) \<in> set (matched lowerDesc)"
    using chicken_entries(1) by (simp add: matched_def chicken_breast_chicken)
next
  assume "includes_str lowerDesc (str ''chicken breast'')"
  then show "(str ''chicken breast'', nutrition_of 165 31 0 4) \<in> set (matched lowerDesc)"
    using chicken_entries(2) by (simp add: matched_def)
next
  show "parseMeal (str ''chicken and rice'') =
     \<lparr>calories = Some (Fin 370), protein = Some (Fin 35), carbs = Some (Fin 45),
      fat = Some (Fin 4), confidence = Some (Fin (7 / 10))\<rparr>"
    by (simp add: parser_eval lazy_eval del: eager_eval)
qed

theorem overlapping_matches_all_count_witness:
  "map fst (matched (str ''chicken breast'')) = [str ''chicken'', str ''chicken breast''] \<and>
   (str ''chicken'', nutrition_of 165 31 0 4) \<in> set (matched (str ''chicken breast'')) \<and>
   (str ''chicken breast'', nutrition_of 165 31 0 4) \<in> set (matched (str ''chicken breast''))"
proof -
  have "includes_str (str ''chicken breast'') (str ''chicken breast'')"
    by (simp add: str_def lazy_eval del: eager_eval)
  moreover have
    "map fst (matched (str ''chicken breast'')) = [str ''chicken'', str ''chicken breast'']"
    by (simp add: matched_def mockFoodDatabase_def str_def lazy_eval del: eager_eval)
  ultimately show ?thesis
    using overlapping_matches_all_count [of "str ''chicken breast''"] by blast
qed

text \<open>
  C6. The multiplier of a food is the value of the first entry of the quantity table, in
  the order in which the table is gone through, whose word stands next to the food in
  the description, before it or after it with whitespace in between; without such an
  entry it is 1. The loop gives this multiplier to every matched food, and
  \<open>large salad\<close> has 30 calories. The table is gone through with the keys \<open>2\<close>, \<open>3\<close>
  and \<open>4\<close> first, so that in \<open>two eggs 3\<close> the eggs are tripled.
\<close>

theorem multiplier_first_adjacent:
  "find_multiplier lowerDesc food quantities =
     (case find (\<lambda>(q, v). adjacent q food lowerDesc) quantities of
        None \<Rightarrow> Fin 1 | Some (q, v) \<Rightarrow> v) \<and>
   totalCalories (scan_foods lowerDesc mockFoodDatabase) =
     Fin (\<Sum>entry\<leftarrow>matched lowerDesc.
            fin (or0 (calories (snd entry))) *
            fin (find_multiplier lowerDesc (fst entry) quantities)) \<and>
   find_multiplier (str ''large salad'') (str ''salad'') quantities = Fin (3 / 2) \<and>
   find_multiplier (str ''two eggs 3'') (str ''eggs'') quantities = Fin 3 \<and>
   calories (parseMeal (str ''large salad'')) = Some (Fin 30)"
proof (intro conjI)
  show "find_multiplier lowerDesc food quantities =
     (case find (\<lambda>(q, v). adjacent q food lowerDesc) quantities of
        None \<Rightarrow> Fin 1 | Some (q, v) \<Rightarrow> v)"
    by (simp add: find_multiplier_find regex_test_adjacent)
next
  show "totalCalories (scan_foods lowerDesc mockFoodDatabase) =
     Fin (\<Sum>entry\<leftarrow>matched lowerDesc.
            fin (or0 (calories (snd entry))) *
            fin (find_multiplier lowerDesc (fst entry) quantities))"
    by (simp add: scan_foods_closed contribution_def [abs_def])
next
  show "find_multiplier (str ''large salad'') (str ''salad'') quantities = Fin (3 / 2)"
    by (simp add: quantities_def str_def is_space_def lazy_eval del: eager_eval)
next
  show "find_multiplier (str ''two eggs 3'') (str ''eggs'') quantities = Fin 3"
    by (simp add: quantities_def str_def is_space_def lazy_eval del: eager_eval)
next
  show "calories (parseMeal (str ''large salad'')) = Some (Fin 30)"
    by (simp add: parser_eval lazy_eval del: eager_eval)
qed

section \<open>The estimate without a match, for every description\<close>

text \<open>
  C7, amended. When no key of the food table occurs in the lowercased description, the
  parser returns the generic estimate: with \<open>words\<close> the number of pieces into which
  the space character U+0020 splits the description (one more than the number of its
  spaces, so 1 for the empty string), the calories are \<open>min (100 + words * 50) 800\<close>,
  protein, carbs and fat are the roundings of 15%, 50% and 35% of the calories over 4, 4
  and 9, and the confidence is 0.3. The empty string has 150 calories.
\<close>

theorem no_match_generic_estimate:
  assumes "matched (toLowerCase s) = []"
  shows "length (split_str 0x20 s) = Suc (length (filter (\<lambda>c. c = 0x20) s)) \<and>
    parseMeal s =
      (let words = length (split_str 0x20 s);
           cal = min (of_nat (100 + words * 50)) (800 :: rat) in
       \<lparr>calories = Some (Fin cal),
        protein = Some (Fin (of_int \<lfloor>cal * (15 / 100) / 4 + 1 / 2\<rfloor>)),
        carbs = Some (Fin (of_int \<lfloor>cal * (5 / 10) / 4 + 1 / 2\<rfloor>)),
        fat = Some (Fin (of_int \<lfloor>cal * (35 / 100) / 9 + 1 / 2\<rfloor>)),
        confidence = Some (Fin (3 / 10))\<rparr>) \<and>
    parseMeal [] =
      \<lparr>calories = Some (Fin 150), protein = Some (Fin 6), carbs = Some (Fin 19),
       fat = Some (Fin 6), confidence = Some (Fin (3 / 10))\<rparr>"
proof (intro conjI)
  show "length (split_str 0x20 s) = Suc (length (filter (\<lambda>c. c = 0x20) s))"
    by (rule length_split_str)
next
  from assms have "parseMeal s = generic_estimate s"
    by (simp add: parseMeal_def estimate_cases)
  then show "parseMeal s =
      (let words = length (split_str 0x20 s);
           cal = min (of_nat (100 + words * 50)) (800 :: rat) in
       \<lparr>calories = Some (Fin cal),
        protein = Some (Fin (of_int \<lfloor>cal * (15 / 100) / 4 + 1 / 2\<rfloor>)),
        carbs = Some (Fin (of_int \<lfloor>cal * (5 / 10) / 4 + 1 / 2\<rfloor>)),
        fat = Some (Fin (of_int \<lfloor>cal * (35 / 100) / 9 + 1 / 2\<rfloor>)),
        confidence = Some (Fin (3 / 10))\<rparr>)"
    by (simp add: generic_estimate_closed Let_def)
next
  show "parseMeal [] =
      \<lparr>calories = Some (Fin 150), protein = Some (Fin 6), carbs = Some (Fin 19),
       fat = Some (Fin 6), confidence = Some (Fin (3 / 10))\<rparr>"
    by (simp add: parser_eval lazy_eval del: eager_eval)
qed

theorem no_match_generic_estimate_witness:
  "parseMeal (str ''mystery food item'') =
     \<lparr>calories = Some (Fin 250), protein = Some (Fin 9), carbs = Some (Fin 31),
      fat = Some (Fin 10), confidence = Some (Fin (3 / 10))\<rparr>"
proof -
  have "matched (toLowerCase (str ''mystery food item'')) = []"
    by (simp add: matched_def mockFoodDatabase_def toLowerCase_def lower_units_def str_def
        lazy_eval del: eager_eval)
  from no_match_generic_estimate [OF this] show ?thesis
    by (simp add: str_def Let_def lazy_eval)
qed

text \<open>
  C7 as stated fails on the description \<open>a<TAB>b\<close>. It matches no food and is two words
  separated by whitespace, for which the formula gives 200 calories. The parser splits
  on the space character alone, counts one word and returns 150.
\<close>

theorem tab_separated_words:
  "matched (toLowerCase [0x61, 0x09, 0x62]) = [] \<and>
   whitespace_words [0x61, 0x09, 0x62] = 2 \<and>
   calories (parseMeal [0x61, 0x09, 0x62]) = Some (Fin 150) \<and>
   calories (parseMeal [0x61, 0x09, 0x62]) \<noteq>
     Some (Fin (min (of_nat (100 + whitespace_words [0x61, 0x09, 0x62] * 50)) 800))"
  by (simp add: matched_def whitespace_words_def parser_eval lazy_eval del: eager_eval)

section \<open>Letter case\<close>

lemma lower_units_upper_unit: "c < 0x80 \<Longrightarrow> lower_units (upper_unit c) = lower_units c"
  unfolding lower_units_def upper_unit_def
  by (auto; unat_arith)

lemma toLowerCase_lower_units: "toLowerCase (lower_units c) = lower_units c"
  unfolding toLowerCase_def lower_units_def
  by (auto; unat_arith)

lemma upper_unit_space: "upper_unit c = 0x20 \<longleftrightarrow> c = 0x20"
  unfolding upper_unit_def
  by (auto; unat_arith)

lemma lower_units_space:
  "filter (\<lambda>u. u = 0x20) (lower_units c) = (if c = 0x20 then [0x20] else [])"
  unfolding lower_units_def
  by (auto; unat_arith)

lemma toLowerCase_Nil: "toLowerCase [] = []"
  by (simp add: toLowerCase_def)

lemma toLowerCase_Cons: "toLowerCase (c # s) = lower_units c @ toLowerCase s"
  by (simp add: toLowerCase_def)

lemma toLowerCase_append: "toLowerCase (s @ t) = toLowerCase s @ toLowerCase t"
  by (simp add: toLowerCase_def)

lemma toLowerCase_toUpperCase: "is_ascii s \<Longrightarrow> toLowerCase (toUpperCase s) = toLowerCase s"
  by (induction s)
    (simp_all add: is_ascii_def toUpperCase_def toLowerCase_Nil toLowerCase_Cons
       lower_units_upper_unit)

lemma toLowerCase_idem: "toLowerCase (toLowerCase s) = toLowerCase s"
  by (induction s)
    (simp_all add: toLowerCase_Nil toLowerCase_Cons toLowerCase_append toLowerCase_lower_units)

lemma spaces_toUpperCase:
  "length (filter (\<lambda>c. c = 0x20) (toUpperCase s)) = length (filter (\<lambda>c. c = 0x20) s)"
  by (induction s) (simp_all add: toUpperCase_def upper_unit_space)

lemma spaces_toLowerCase:
  "length (filter (\<lambda>c. c = 0x20) (toLowerCase s)) = length (filter (\<lambda>c. c = 0x20) s)"
  by (induction s) (simp_all add: toLowerCase_Nil toLowerCase_Cons lower_units_space)

text \<open>The generic estimate looks at nothing but the number of spaces of the description.\<close>

lemma generic_estimate_spaces:
  "length (filter (\<lambda>c. c = 0x20) s) = length (filter (\<lambda>c. c = 0x20) t) \<Longrightarrow>
   generic_estimate s = generic_estimate t"
  by (simp add: generic_estimate_closed length_split_str)

lemma estimate_spaces:
  "length (filter (\<lambda>c. c = 0x20) s) = length (filter (\<lambda>c. c = 0x20) t) \<Longrightarrow>
   estimate lowerDesc s = estimate lowerDesc t"
  using generic_estimate_spaces [of s t] by (simp add: estimate_cases)

text \<open>
  C8, amended. For every string of ASCII characters the parser returns the same estimate,
  field by field, for the string, for its uppercase form and for its lowercase form.
\<close>

theorem parseMeal_case_insensitive_ascii:
  assumes "is_ascii s"
  shows "parseMeal (toUpperCase s) = parseMeal s \<and> parseMeal (toLowerCase s) = parseMeal s"
proof
  have "parseMeal (toUpperCase s) = estimate (toLowerCase s) (toUpperCase s)"
    by (simp add: parseMeal_def toLowerCase_toUpperCase [OF assms])
  also have "\<dots> = estimate (toLowerCase s) s"
    by (rule estimate_spaces) (rule spaces_toUpperCase)
  finally show "parseMeal (toUpperCase s) = parseMeal s" by (simp add: parseMeal_def)
next
  have "parseMeal (toLowerCase s) = estimate (toLowerCase s) (toLowerCase s)"
    by (simp add: parseMeal_def toLowerCase_idem)
  also have "\<dots> = estimate (toLowerCase s) s"
    by (rule estimate_spaces) (rule spaces_toLowerCase)
  finally show "parseMeal (toLowerCase s) = parseMeal s" by (simp add: parseMeal_def)
qed

theorem parseMeal_case_insensitive_ascii_witness:
  "toUpperCase (str ''ChIcKeN'') = str ''CHICKEN'' \<and>
   toLowerCase (str ''ChIcKeN'') = str ''chicken'' \<and>
   parseMeal (str ''CHICKEN'') = parseMeal (str ''ChIcKeN'') \<and>
   parseMeal (str ''chicken'') = parseMeal (str ''ChIcKeN'')"
proof -
  have a: "is_ascii (str ''ChIcKeN'')" by (simp add: is_ascii_def str_def)
  have u: "toUpperCase (str ''ChIcKeN'') = str ''CHICKEN''"
    by (simp add: toUpperCase_def upper_unit_def str_def)
  have l: "toLowerCase (str ''ChIcKeN'') = str ''chicken''"
    by (simp add: toLowerCase_def lower_units_def str_def)
  from parseMeal_case_insensitive_ascii [OF a] show ?thesis by (simp only: u l simp_thms)
qed

text \<open>
  C8 as stated fails on the string made of U+017F (the long s) and \<open>alad\<close>. It is in
  lowercase already and contains no food: its estimate is the generic one, 150 calories
  with confidence 0.3. Its uppercase form is \<open>SALAD\<close>, whose estimate is that of a salad,
  20 calories with confidence 0.5.
\<close>

theorem long_s_salad:
  "toUpperCase (0x17F # str ''alad'') = str ''SALAD'' \<and>
   parseMeal (0x17F # str ''alad'') =
     \<lparr>calories = Some (Fin 150), protein = Some (Fin 6), carbs = Some (Fin 19),
      fat = Some (Fin 6), confidence = Some (Fin (3 / 10))\<rparr> \<and>
   parseMeal (toUpperCase (0x17F # str ''alad'')) =
     \<lparr>calories = Some (Fin 20), protein = Some (Fin 1), carbs = Some (Fin 4),
      fat = Some (Fin 0), confidence = Some (Fin (1 / 2))\<rparr> \<and>
   parseMeal (toUpperCase (0x17F # str ''alad'')) \<noteq> parseMeal (0x17F # str ''alad'')"
  by (simp add: toUpperCase_def upper_unit_def parser_eval lazy_eval del: eager_eval)

section \<open>The tolerance after the rescaling\<close>

lemma round_close: "\<bar>of_int \<lfloor>x + 1 / 2\<rfloor> - x\<bar> \<le> (1 / 2 :: rat)"
  by linarith

lemma rescale_close:
  fixes p c f cal :: rat
  assumes "4 * p + 4 * c + 9 * f \<noteq> 0"
  defines "ratio \<equiv> cal / (4 * p + 4 * c + 9 * f)"
  shows "\<bar>4 * of_int \<lfloor>p * ratio + 1 / 2\<rfloor> + 4 * of_int \<lfloor>c * ratio + 1 / 2\<rfloor> +
          9 * of_int \<lfloor>f * ratio + 1 / 2\<rfloor> - cal\<bar> \<le> 17 / 2"
proof -
  have "(4 * p + 4 * c + 9 * f) * ratio = cal"
    using assms(1) by (simp add: ratio_def)
  then have cal: "cal = 4 * (p * ratio) + 4 * (c * ratio) + 9 * (f * ratio)"
    by (simp add: algebra_simps)
  have "\<bar>of_int \<lfloor>p * ratio + 1 / 2\<rfloor> - p * ratio\<bar> \<le> 1 / 2"
    "\<bar>of_int \<lfloor>c * ratio + 1 / 2\<rfloor> - c * ratio\<bar> \<le> 1 / 2"
    "\<bar>of_int \<lfloor>f * ratio + 1 / 2\<rfloor> - f * ratio\<bar> \<le> 1 / 2"
    by (rule round_close)+
  with cal show ?thesis by linarith
qed

text \<open>
  Where the macronutrients are not all zero and the calories are 43 or more, the result
  of the last step is within the 20%: either nothing was rescaled, or the three
  roundings together are off by at most 8.5 calories.
\<close>

lemma reconcile_within_tolerance:
  assumes "4 * p + 4 * c + 9 * f \<noteq> 0" and "85 / 2 \<le> cal"
  shows "within_tolerance 0
           (reconcile \<lparr>calories = Some (Fin cal), protein = Some (Fin p), carbs = Some (Fin c),
              fat = Some (Fin f), confidence = v\<rparr>)"
proof (cases "cal * (2 / 10) < \<bar>4 * p + 4 * c + 9 * f - cal\<bar>")
  case True
  let ?ratio = "cal / (4 * p + 4 * c + 9 * f)"
  have "\<bar>4 * of_int \<lfloor>p * ?ratio + 1 / 2\<rfloor> + 4 * of_int \<lfloor>c * ?ratio + 1 / 2\<rfloor> +
          9 * of_int \<lfloor>f * ?ratio + 1 / 2\<rfloor> - cal\<bar> \<le> 17 / 2"
    by (rule rescale_close [OF assms(1)])
  also have "17 / 2 \<le> cal * (2 / 10)" using assms(2) by simp
  finally have "\<not> cal * (2 / 10) <
      \<bar>4 * of_int \<lfloor>p * ?ratio + 1 / 2\<rfloor> + 4 * of_int \<lfloor>c * ?ratio + 1 / 2\<rfloor> +
          9 * of_int \<lfloor>f * ?ratio + 1 / 2\<rfloor> - cal\<bar>"
    by simp
  with True assms(1) show ?thesis
    by (simp add: within_tolerance_def reconcile_def implied_calories_def js_sub_def js_le_def
        Let_def mult.commute)
next
  case False
  then show ?thesis
    by (simp add: within_tolerance_def reconcile_def implied_calories_def js_sub_def js_le_def
        Let_def mult.commute)
qed

lemma parseMeal_within_tolerance:
  assumes "matched (toLowerCase s) \<noteq> []"
    and "implied_calories (rounded_totals (scan_foods (toLowerCase s) mockFoodDatabase)) \<noteq> Fin 0"
    and "js_le (Fin 43) (the (calories (parseMeal s)))"
  shows "within_tolerance 0 (parseMeal s)"
proof -
  let ?l = "toLowerCase s"
  define cal p c f :: rat
    where "cal = of_int \<lfloor>sum_list (map (contribution ?l calories) (matched ?l)) + 1 / 2\<rfloor>"
      and "p = of_int \<lfloor>sum_list (map (contribution ?l protein) (matched ?l)) + 1 / 2\<rfloor>"
      and "c = of_int \<lfloor>sum_list (map (contribution ?l carbs) (matched ?l)) + 1 / 2\<rfloor>"
      and "f = of_int \<lfloor>sum_list (map (contribution ?l fat) (matched ?l)) + 1 / 2\<rfloor>"
  obtain v where r: "rounded_totals (scan_foods ?l mockFoodDatabase) =
      \<lparr>calories = Some (Fin cal), protein = Some (Fin p), carbs = Some (Fin c),
       fat = Some (Fin f), confidence = v\<rparr>"
    by (simp add: scan_foods_closed rounded_totals_def cal_def p_def c_def f_def)
  from assms(1) have pm: "parseMeal s = reconcile (rounded_totals (scan_foods ?l mockFoodDatabase))"
    by (simp add: parseMeal_def estimate_cases)
  from assms(2) have "4 * p + 4 * c + 9 * f \<noteq> 0"
    by (simp add: r implied_calories_def mult.commute)
  moreover from assms(3) have "85 / 2 \<le> cal"
    by (simp add: pm r js_le_def)
  ultimately show ?thesis unfolding pm r by (rule reconcile_within_tolerance)
qed

text \<open>
  Below 43 calories the bound on the roundings is not enough. So few calories come from
  few totals: \<open>reachable\<close> lists them, entry by entry, and each of them is checked.
\<close>

lemma find_multiplier_pred:
  "P (Fin 1) \<Longrightarrow> list_all (\<lambda>(q, v). P v) qs \<Longrightarrow> P (find_multiplier lowerDesc food qs)"
  by (induction qs) auto

lemma multiplier_in_multipliers:
  "fin (find_multiplier lowerDesc food quantities) \<in> set multipliers"
  by (rule find_multiplier_pred) (simp_all add: quantities_def multipliers_def)

lemma reachable_mono: "set (reachable bound entries) \<subseteq> set (reachable bound (entry # entries))"
  by (auto simp: Let_def)

lemma sum_calories_nonneg:
  "list_all plain_entry es \<Longrightarrow> 0 \<le> sum_list (map (contribution lowerDesc calories) es)"
  using sum_calories_matched [of es lowerDesc] by (simp add: order_trans [OF of_nat_0_le_iff])

lemma in_concat_map: "m \<in> set ms \<Longrightarrow> x \<in> set (f m) \<Longrightarrow> x \<in> set (concat (map f ms))"
  by auto

lemma reachable_covers:
  assumes "list_all plain_entry es"
    and "sum_list (map (contribution l calories) (filter (\<lambda>e. includes_str l (fst e)) es)) < bound"
  shows "(sum_list (map (contribution l calories) (filter (\<lambda>e. includes_str l (fst e)) es)),
          sum_list (map (contribution l protein) (filter (\<lambda>e. includes_str l (fst e)) es)),
          sum_list (map (contribution l carbs) (filter (\<lambda>e. includes_str l (fst e)) es)),
          sum_list (map (contribution l fat) (filter (\<lambda>e. includes_str l (fst e)) es)))
         \<in> set (reachable bound es)"
  using assms
proof (induction es)
  case Nil
  show ?case by simp
next
  case (Cons e es)
  let ?hits = "filter (\<lambda>e. includes_str l (fst e)) es"
  let ?t = "(sum_list (map (contribution l calories) ?hits),
             sum_list (map (contribution l protein) ?hits),
             sum_list (map (contribution l carbs) ?hits),
             sum_list (map (contribution l fat) ?hits))"
  from Cons.prems have plain: "plain_entry e" and rest: "list_all plain_entry es" by simp_all
  show ?case
  proof (cases "includes_str l (fst e)")
    case False
    with Cons.prems have "sum_list (map (contribution l calories) ?hits) < bound" by simp
    from Cons.IH [OF rest this] have "?t \<in> set (reachable bound (e # es))"
      using reachable_mono by blast
    with False show ?thesis by (simp del: reachable.simps)
  next
    case True
    define m where "m = fin (find_multiplier l (fst e) quantities)"
    define q where "q = entry_numbers e"
    have m_in: "m \<in> set multipliers" unfolding m_def by (rule multiplier_in_multipliers)
    have m_half: "1 / 2 \<le> m" using multiplier_finite [of l "fst e"] by (auto simp: m_def)
    have contrib: "contribution l calories e = fst q * m"
      "contribution l protein e = fst (snd q) * m"
      "contribution l carbs e = fst (snd (snd q)) * m"
      "contribution l fat e = snd (snd (snd q)) * m"
      by (simp_all add: contribution_def q_def entry_numbers_def m_def)
    have q2: "2 \<le> fst q" using plain by (auto simp: plain_entry_def q_def entry_numbers_def)
    have hits_plain: "list_all plain_entry ?hits" using rest by (simp add: list_all_iff)
    have nonneg: "0 \<le> sum_list (map (contribution l calories) ?hits)"
      by (rule sum_calories_nonneg [OF hits_plain])
    from True Cons.prems(2) have below: "fst q * m + sum_list (map (contribution l calories) ?hits) < bound"
      by (simp add: contrib)
    have "fst q * (1 / 2) \<le> fst q * m" using q2 m_half by (intro mult_left_mono) simp_all
    with below nonneg have guard: "\<not> bound \<le> fst q / 2" by simp
    have "1 \<le> contribution l calories e" by (rule contribution_calories [OF plain])
    with below contrib have "sum_list (map (contribution l calories) ?hits) < bound" by simp
    from Cons.IH [OF rest this] have t_in: "?t \<in> set (reachable bound es)" .
    have pass: "fst ?t + fst q * m < bound" using below by (simp add: add.commute)
    have unfold: "reachable bound (e # es) =
        reachable bound es @
        concat (map (\<lambda>m. map (add_scaled m q)
                  (filter (\<lambda>t. fst t + fst q * m < bound) (reachable bound es))) multipliers)"
      using guard by (simp add: Let_def q_def)
    have "?t \<in> set (filter (\<lambda>t. fst t + fst q * m < bound) (reachable bound es))"
      using t_in pass by simp
    then have "add_scaled m q ?t \<in>
        set (map (add_scaled m q) (filter (\<lambda>t. fst t + fst q * m < bound) (reachable bound es)))"
      unfolding set_map by (rule imageI)
    with m_in have "add_scaled m q ?t \<in>
        set (concat (map (\<lambda>m. map (add_scaled m q)
                  (filter (\<lambda>t. fst t + fst q * m < bound) (reachable bound es))) multipliers))"
      by (rule in_concat_map)
    then have "add_scaled m q ?t \<in> set (reachable bound (e # es))"
      unfolding unfold by simp
    moreover have "add_scaled m q ?t =
        (sum_list (map (contribution l calories) (e # ?hits)),
         sum_list (map (contribution l protein) (e # ?hits)),
         sum_list (map (contribution l carbs) (e # ?hits)),
         sum_list (map (contribution l fat) (e # ?hits)))"
      by (cases q) (simp add: add_scaled_def contrib add.commute)
    ultimately show ?thesis using True by (simp del: reachable.simps)
  qed
qed

lemma small_totals_ok: "list_all totals_ok (reachable (85 / 2) mockFoodDatabase)"
  by code_simp

lemma implied_calories_confidence [simp]:
  "implied_calories (r\<lparr>confidence := v\<rparr>) = implied_calories r"
  by (simp add: implied_calories_def)

lemma within_tolerance_confidence:
  "within_tolerance eps (reconcile (r\<lparr>confidence := v\<rparr>)) = within_tolerance eps (reconcile r)"
  by (simp add: within_tolerance_def reconcile_def implied_calories_def Let_def)

text \<open>
  On the match path the estimate is within the 20% whenever the rounded macronutrients
  are not all zero: above 42 calories by the bound on the roundings, and below by going
  through the totals that so few calories can come from.
\<close>

lemma parseMeal_tolerance_with_macros:
  assumes "matched (toLowerCase s) \<noteq> []"
    and "implied_calories (rounded_totals (scan_foods (toLowerCase s) mockFoodDatabase)) \<noteq> Fin 0"
  shows "within_tolerance 0 (parseMeal s)"
proof -
  let ?l = "toLowerCase s"
  let ?a = "sum_list (map (contribution ?l calories) (matched ?l))"
  let ?b = "sum_list (map (contribution ?l protein) (matched ?l))"
  let ?c = "sum_list (map (contribution ?l carbs) (matched ?l))"
  let ?d = "sum_list (map (contribution ?l fat) (matched ?l))"
  let ?r = "\<lparr>calories = Some (Math_round (Fin ?a)), protein = Some (Math_round (Fin ?b)),
             carbs = Some (Math_round (Fin ?c)), fat = Some (Math_round (Fin ?d)),
             confidence = None\<rparr>"
  obtain v where r: "rounded_totals (scan_foods ?l mockFoodDatabase) = ?r\<lparr>confidence := v\<rparr>"
    by (simp add: scan_foods_closed rounded_totals_def)
  from assms(1) have pm: "parseMeal s = reconcile (rounded_totals (scan_foods ?l mockFoodDatabase))"
    by (simp add: parseMeal_def estimate_cases)
  show ?thesis
  proof (cases "85 / 2 \<le> ?a")
    case True
    then have "43 \<le> \<lfloor>?a + 1 / 2\<rfloor>" by linarith
    then have "(43 :: rat) \<le> of_int \<lfloor>?a + 1 / 2\<rfloor>" by linarith
    then have "js_le (Fin 43) (the (calories (parseMeal s)))"
      by (simp add: pm r js_le_def)
    with assms show ?thesis by (rule parseMeal_within_tolerance)
  next
    case False
    then have "?a < 85 / 2" by simp
    then have "(?a, ?b, ?c, ?d) \<in> set (reachable (85 / 2) mockFoodDatabase)"
      unfolding matched_def by (rule reachable_covers [OF food_entries_plain])
    with small_totals_ok have "totals_ok (?a, ?b, ?c, ?d)" by (simp add: list_all_iff)
    then have "implied_calories ?r = Fin 0 \<or> within_tolerance 0 (reconcile ?r)"
      by (simp only: totals_ok_def prod.case Let_def)
    moreover from assms(2) have "implied_calories ?r \<noteq> Fin 0"
      by (simp add: r implied_calories_def)
    ultimately have "within_tolerance 0 (reconcile ?r)" by simp
    then show ?thesis by (simp only: pm r within_tolerance_confidence)
  qed
qed

section \<open>Estimates without macronutrients\<close>

lemma contribution_nonneg:
  assumes "plain_entry entry"
  shows "0 \<le> contribution lowerDesc protein entry"
    and "0 \<le> contribution lowerDesc carbs entry"
    and "0 \<le> contribution lowerDesc fat entry"
proof -
  obtain m where m: "find_multiplier lowerDesc (fst entry) quantities = Fin m" "1 / 2 \<le> m"
    using multiplier_finite by blast
  from assms obtain p c f where
    "protein (snd entry) = Some (Fin p)" "0 \<le> p"
    "carbs (snd entry) = Some (Fin c)" "0 \<le> c"
    "fat (snd entry) = Some (Fin f)" "0 \<le> f"
    unfolding plain_entry_def by blast
  with m show "0 \<le> contribution lowerDesc protein entry"
    and "0 \<le> contribution lowerDesc carbs entry"
    and "0 \<le> contribution lowerDesc fat entry"
    by (simp_all add: contribution_def)
qed

lemma sum_contributions_nonneg:
  assumes "list_all plain_entry es"
  shows "0 \<le> sum_list (map (contribution lowerDesc protein) es)"
    and "0 \<le> sum_list (map (contribution lowerDesc carbs) es)"
    and "0 \<le> sum_list (map (contribution lowerDesc fat) es)"
  using assms by (induction es) (simp_all add: contribution_nonneg)

lemma reconcile_no_macros:
  assumes "0 < cal"
  shows "reconcile \<lparr>calories = Some (Fin cal), protein = Some (Fin 0), carbs = Some (Fin 0),
           fat = Some (Fin 0), confidence = v\<rparr> =
         \<lparr>calories = Some (Fin cal), protein = Some NaN, carbs = Some NaN, fat = Some NaN,
          confidence = v\<rparr>"
  using assms
  by (simp add: reconcile_def implied_calories_def js_sub_def inf_of_sign_def Let_def)

text \<open>
  On the match path, when the rounded macronutrients are all zero, the estimate has NaN
  for each of them: what \<open>coffee\<close> shows holds for every such description.
\<close>

lemma parseMeal_no_macros:
  assumes "matched (toLowerCase s) \<noteq> []"
    and "implied_calories (rounded_totals (scan_foods (toLowerCase s) mockFoodDatabase)) = Fin 0"
  shows "protein (parseMeal s) = Some NaN \<and> carbs (parseMeal s) = Some NaN \<and>
         fat (parseMeal s) = Some NaN"
proof -
  let ?l = "toLowerCase s"
  define cal p c f :: int
    where "cal = \<lfloor>sum_list (map (contribution ?l calories) (matched ?l)) + 1 / 2\<rfloor>"
      and "p = \<lfloor>sum_list (map (contribution ?l protein) (matched ?l)) + 1 / 2\<rfloor>"
      and "c = \<lfloor>sum_list (map (contribution ?l carbs) (matched ?l)) + 1 / 2\<rfloor>"
      and "f = \<lfloor>sum_list (map (contribution ?l fat) (matched ?l)) + 1 / 2\<rfloor>"
  obtain v where r: "rounded_totals (scan_foods ?l mockFoodDatabase) =
      \<lparr>calories = Some (Fin (of_int cal)), protein = Some (Fin (of_int p)),
       carbs = Some (Fin (of_int c)), fat = Some (Fin (of_int f)), confidence = v\<rparr>"
    by (simp add: scan_foods_closed rounded_totals_def cal_def p_def c_def f_def)
  from assms(1) have pm: "parseMeal s = reconcile (rounded_totals (scan_foods ?l mockFoodDatabase))"
    by (simp add: parseMeal_def estimate_cases)
  have "0 \<le> p" "0 \<le> c" "0 \<le> f"
    using sum_contributions_nonneg [where es = "matched ?l" and lowerDesc = ?l, OF matched_plain]
    unfolding p_def c_def f_def by linarith+
  moreover from assms(2) have "(of_int p :: rat) * 4 + of_int c * 4 + of_int f * 9 = 0"
    by (simp add: r implied_calories_def)
  then have "(of_int (p * 4 + c * 4 + f * 9) :: rat) = of_int 0" by simp
  then have "p * 4 + c * 4 + f * 9 = 0" by (simp only: of_int_eq_iff)
  ultimately have z: "p = 0" "c = 0" "f = 0" by linarith+
  obtain k where "calories (reconcile (rounded_totals (scan_foods ?l mockFoodDatabase))) =
      Some (Fin (of_int k))" "1 \<le> k"
    using match_path_calories [OF assms(1)] by blast
  then have "(0 :: rat) < of_int cal" by (simp add: r)
  from reconcile_no_macros [OF this] show ?thesis by (simp add: pm r z)
qed

section \<open>Descriptions of foods without macronutrients\<close>

text \<open>
  C1. The last step has no guard for implied calories of 0. The description \<open>coffee\<close>
  matches one entry, with 2 calories and no macronutrients. The implied calories are 0,
  the difference of 2 exceeds 20% of 2, and the rescaling divides 2 by 0: the ratio is
  infinite, and 0 times the ratio is NaN. The estimate has NaN for protein, carbs and
  fat, and so has that of every description whose rounded macronutrients are all zero
  (\<open>parseMeal_no_macros\<close>).
\<close>

theorem parseMeal_coffee:
  "parseMeal (str ''coffee'') =
     \<lparr>calories = Some (Fin 2), protein = Some NaN, carbs = Some NaN, fat = Some NaN,
      confidence = Some (Fin (1 / 2))\<rparr>"
  by (simp add: parser_eval lazy_eval del: eager_eval)

text \<open>
  C3. The description \<open>two coffee\<close> takes the match path (one entry matches) and its
  estimate, 4 calories with NaN macronutrients, is outside the tolerance whatever the
  \<open>eps\<close>: the comparison with NaN is false. The missing guard for implied calories of
  0 is the only way out of the tolerance: every other estimate of the match path is
  within the 20% (\<open>parseMeal_tolerance_with_macros\<close>).
\<close>

theorem parseMeal_two_coffee_tolerance:
  "matched (toLowerCase (str ''two coffee'')) = [(str ''coffee'', nutrition_of 2 0 0 0)] \<and>
   parseMeal (str ''two coffee'') =
     \<lparr>calories = Some (Fin 4), protein = Some NaN, carbs = Some NaN, fat = Some NaN,
      confidence = Some (Fin (1 / 2))\<rparr> \<and>
   \<not> within_tolerance eps (parseMeal (str ''two coffee''))"
  by (simp add: matched_def within_tolerance_def js_le_def parser_eval lazy_eval del: eager_eval)

section \<open>The formatter\<close>

lemma truthy_iff: "truthy v \<longleftrightarrow> v \<noteq> None \<and> v \<noteq> Some (Fin 0) \<and> v \<noteq> Some NaN"
  by (cases v rule: truthy.cases) auto

lemma formatParsedMeal_truthy:
  "truthy (calories parsed) \<Longrightarrow>
   formatParsedMeal toString parsed =
     join_str delimiter
       ([toString (the (calories parsed)) @ str '' cal''] @
        (if truthy (protein parsed) then [toString (the (protein parsed)) @ str ''g protein''] else []) @
        (if truthy (carbs parsed) then [toString (the (carbs parsed)) @ str ''g carbs''] else []) @
        (if truthy (fat parsed) then [toString (the (fat parsed)) @ str ''g fat''] else []))"
  by (simp add: formatParsedMeal_def Let_def)

lemma join_str_last: "parts \<noteq> [] \<Longrightarrow> \<exists>pre. join_str sep parts = pre @ last parts"
proof (induction sep parts rule: join_str.induct)
  case (1 sep)
  then show ?case by simp
next
  case (2 sep p)
  show ?case by simp
next
  case (3 sep p q ps)
  then obtain pre where "join_str sep (q # ps) = pre @ last (q # ps)" by auto
  then have "join_str sep (p # q # ps) = (p @ sep @ pre) @ last (p # q # ps)" by simp
  then show ?case by blast
qed

lemma join_str_suffix:
  assumes "parts \<noteq> []" and "last parts = x @ unit"
  shows "suffix unit (join_str sep parts)"
proof -
  obtain pre where "join_str sep parts = pre @ last parts"
    using join_str_last [OF assms(1)] by blast
  with assms(2) have "join_str sep parts = (pre @ x) @ unit" by simp
  then show ?thesis unfolding suffix_def by blast
qed

lemma unable_suffixes:
  "\<not> suffix (str '' cal'') (str ''Unable to parse meal'')"
  "\<not> suffix (str ''g protein'') (str ''Unable to parse meal'')"
  "\<not> suffix (str ''g carbs'') (str ''Unable to parse meal'')"
  "\<not> suffix (str ''g fat'') (str ''Unable to parse meal'')"
  by (simp_all add: suffix_to_prefix str_def)

lemma formatParsedMeal_able:
  assumes "truthy (calories parsed)"
  shows "formatParsedMeal toString parsed \<noteq> str ''Unable to parse meal''"
proof -
  let ?parts = "[toString (the (calories parsed)) @ str '' cal''] @
        (if truthy (protein parsed) then [toString (the (protein parsed)) @ str ''g protein''] else []) @
        (if truthy (carbs parsed) then [toString (the (carbs parsed)) @ str ''g carbs''] else []) @
        (if truthy (fat parsed) then [toString (the (fat parsed)) @ str ''g fat''] else [])"
  have ne: "?parts \<noteq> []" by simp
  have "\<exists>x unit. last ?parts = x @ unit \<and>
          unit \<in> {str '' cal'', str ''g protein'', str ''g carbs'', str ''g fat''}"
    by auto
  then obtain x unit where l: "last ?parts = x @ unit"
    and u: "unit \<in> {str '' cal'', str ''g protein'', str ''g carbs'', str ''g fat''}" by blast
  have "suffix unit (join_str delimiter ?parts)" by (rule join_str_suffix [OF ne l])
  then have "suffix unit (formatParsedMeal toString parsed)"
    by (simp only: formatParsedMeal_truthy [OF assms])
  moreover from u have "\<not> suffix unit (str ''Unable to parse meal'')"
    using unable_suffixes by auto
  ultimately show ?thesis by auto
qed

lemma formatParsedMeal_unable_iff:
  "formatParsedMeal toString parsed = str ''Unable to parse meal'' \<longleftrightarrow> \<not> truthy (calories parsed)"
  using formatParsedMeal_able [of parsed toString] by (auto simp: formatParsedMeal_def)

text \<open>
  C10. For every string the calories of the estimate are a whole number, 1 or more, and
  150 or more when no food was found. They are never falsy, so the formatter never
  answers a parsed meal with its message for an estimate without calories.
\<close>

theorem parseMeal_never_unable:
  "(\<exists>k. calories (parseMeal s) = Some (Fin (of_int k)) \<and> 1 \<le> k \<and>
      (matched (toLowerCase s) = [] \<longrightarrow> 150 \<le> k)) \<and>
   formatParsedMeal toString (parseMeal s) \<noteq> str ''Unable to parse meal''"
proof -
  obtain k where k: "calories (estimate (toLowerCase s) s) = Some (Fin (of_int k))" "1 \<le> k"
    "matched (toLowerCase s) = [] \<longrightarrow> 150 \<le> k"
    using estimate_calories by blast
  then have "truthy (calories (parseMeal s))" by (simp add: parseMeal_def)
  then have "formatParsedMeal toString (parseMeal s) \<noteq> str ''Unable to parse meal''"
    by (rule formatParsedMeal_able)
  with k show ?thesis by (auto simp: parseMeal_def)
qed

theorem parseMeal_never_unable_witness:
  "(\<exists>k. calories (parseMeal []) = Some (Fin (of_int k)) \<and> 150 \<le> k) \<and>
   formatParsedMeal Number_toString (parseMeal (str ''coffee'')) \<noteq> str ''Unable to parse meal''"
proof -
  have "matched (toLowerCase []) = []"
    by (simp add: matched_def mockFoodDatabase_def toLowerCase_def str_def)
  with parseMeal_never_unable [of "[]" Number_toString]
    parseMeal_never_unable [of "str ''coffee''" Number_toString]
  show ?thesis by blast
qed

lemma shown_part_if:
  "shown_part toString v unit (if truthy v then [toString (the v) @ unit] else [])"
  by (cases v rule: truthy.cases) (simp_all add: shown_part_def part_of_def)

text \<open>
  C2, amended. The formatter answers with its fixed message exactly when the calories are
  falsy: absent, 0 or NaN. Otherwise the line is made of parts with the delimiter between
  them: the part of the calories first, then, in the order protein, carbs, fat, the part
  of each of these fields that is a number other than 0 and NaN; an absent field has no
  part. Whether a field that is 0 or NaN has its part is left open: the line is as
  stated either way. The estimate \<open>{500, 30, 50, 20}\<close> gives the four parts in that order.
\<close>

theorem formatParsedMeal_parts:
  "(formatParsedMeal toString parsed = str ''Unable to parse meal'' \<longleftrightarrow>
      calories parsed = None \<or> calories parsed = Some (Fin 0) \<or> calories parsed = Some NaN) \<and>
   (truthy (calories parsed) \<longrightarrow>
    (\<exists>ps cs fs.
       shown_part toString (protein parsed) (str ''g protein'') ps \<and>
       shown_part toString (carbs parsed) (str ''g carbs'') cs \<and>
       shown_part toString (fat parsed) (str ''g fat'') fs \<and>
       formatParsedMeal toString parsed =
         join_str delimiter ([toString (the (calories parsed)) @ str '' cal''] @ ps @ cs @ fs))) \<and>
   formatParsedMeal Number_toString
     \<lparr>calories = Some (Fin 500), protein = Some (Fin 30), carbs = Some (Fin 50),
      fat = Some (Fin 20), confidence = None\<rparr> = example_line"
proof (intro conjI impI)
  show "formatParsedMeal toString parsed = str ''Unable to parse meal'' \<longleftrightarrow>
      calories parsed = None \<or> calories parsed = Some (Fin 0) \<or> calories parsed = Some NaN"
    by (auto simp: formatParsedMeal_unable_iff truthy_iff)
next
  let ?ps = "if truthy (protein parsed)
             then [toString (the (protein parsed)) @ str ''g protein''] else []"
  let ?cs = "if truthy (carbs parsed)
             then [toString (the (carbs parsed)) @ str ''g carbs''] else []"
  let ?fs = "if truthy (fat parsed)
             then [toString (the (fat parsed)) @ str ''g fat''] else []"
  assume "truthy (calories parsed)"
  then have "formatParsedMeal toString parsed =
      join_str delimiter ([toString (the (calories parsed)) @ str '' cal''] @ ?ps @ ?cs @ ?fs)"
    by (rule formatParsedMeal_truthy)
  moreover have "shown_part toString (protein parsed) (str ''g protein'') ?ps"
    and "shown_part toString (carbs parsed) (str ''g carbs'') ?cs"
    and "shown_part toString (fat parsed) (str ''g fat'') ?fs"
    by (rule shown_part_if)+
  ultimately show "\<exists>ps cs fs.
       shown_part toString (protein parsed) (str ''g protein'') ps \<and>
       shown_part toString (carbs parsed) (str ''g carbs'') cs \<and>
       shown_part toString (fat parsed) (str ''g fat'') fs \<and>
       formatParsedMeal toString parsed =
         join_str delimiter ([toString (the (calories parsed)) @ str '' cal''] @ ps @ cs @ fs)"
    by blast
next
  show "formatParsedMeal Number_toString
     \<lparr>calories = Some (Fin 500), protein = Some (Fin 30), carbs = Some (Fin 50),
      fat = Some (Fin 20), confidence = None\<rparr> = example_line"
    by (simp add: formatParsedMeal_def example_line_def delimiter_def str_def Let_def)
qed

text \<open>
  Two estimates: one without carbs and fat, and the entry of the food table for chicken,
  whose carbs are 0.
\<close>

theorem formatParsedMeal_parts_witness:
  "formatParsedMeal Number_toString
     \<lparr>calories = Some (Fin 300), protein = Some (Fin 20), carbs = None, fat = None,
      confidence = None\<rparr> =
     str ''300 cal'' @ delimiter @ str ''20g protein'' \<and>
   (formatParsedMeal Number_toString (nutrition_of 165 31 0 4) =
      str ''165 cal'' @ delimiter @ str ''31g protein'' @ delimiter @ str ''4g fat'' \<or>
    formatParsedMeal Number_toString (nutrition_of 165 31 0 4) =
      str ''165 cal'' @ delimiter @ str ''31g protein'' @ delimiter @ str ''0g carbs'' @
      delimiter @ str ''4g fat'')"
proof
  let ?r = "\<lparr>calories = Some (Fin 300), protein = Some (Fin 20), carbs = None, fat = None,
      confidence = None\<rparr>"
  from formatParsedMeal_parts [of Number_toString ?r]
  obtain ps cs fs where "shown_part Number_toString (protein ?r) (str ''g protein'') ps"
    and "shown_part Number_toString (carbs ?r) (str ''g carbs'') cs"
    and "shown_part Number_toString (fat ?r) (str ''g fat'') fs"
    and "formatParsedMeal Number_toString ?r =
         join_str delimiter ([Number_toString (the (calories ?r)) @ str '' cal''] @ ps @ cs @ fs)"
    by auto
  then show "formatParsedMeal Number_toString ?r =
      str ''300 cal'' @ delimiter @ str ''20g protein''"
    by (simp add: shown_part_def part_of_def str_def)
next
  let ?r = "nutrition_of 165 31 0 4"
  from formatParsedMeal_parts [of Number_toString ?r]
  obtain ps cs fs where "shown_part Number_toString (protein ?r) (str ''g protein'') ps"
    and "shown_part Number_toString (carbs ?r) (str ''g carbs'') cs"
    and "shown_part Number_toString (fat ?r) (str ''g fat'') fs"
    and "formatParsedMeal Number_toString ?r =
         join_str delimiter ([Number_toString (the (calories ?r)) @ str '' cal''] @ ps @ cs @ fs)"
    by (auto simp: nutrition_of_def)
  then show "formatParsedMeal Number_toString ?r =
      str ''165 cal'' @ delimiter @ str ''31g protein'' @ delimiter @ str ''4g fat'' \<or>
    formatParsedMeal Number_toString ?r =
      str ''165 cal'' @ delimiter @ str ''31g protein'' @ delimiter @ str ''0g carbs'' @
      delimiter @ str ''4g fat''"
    by (auto simp: shown_part_def part_of_def str_def nutrition_of_def)
qed

text \<open>
  C2 as stated fails on calories of 0: they are not absent, and the formatter answers
  with its message for an estimate without calories.
\<close>

theorem formatParsedMeal_zero_calories:
  "calories \<lparr>calories = Some (Fin 0), protein = Some (Fin 30), carbs = Some (Fin 50),
      fat = Some (Fin 20), confidence = None\<rparr> \<noteq> None \<and>
   formatParsedMeal Number_toString
     \<lparr>calories = Some (Fin 0), protein = Some (Fin 30), carbs = Some (Fin 50),
      fat = Some (Fin 20), confidence = None\<rparr> = str ''Unable to parse meal''"
  by (simp add: formatParsedMeal_def)

text \<open>
  A protein of 0 is left out of the line by the test \<open>if (parsed.protein)\<close>, where the
  diet page of the same repository tests \<open>meal.protein !== null\<close> and prints \<open>0g protein\<close>.
\<close>

lemma formatParsedMeal_zero_protein:
  "formatParsedMeal Number_toString
     \<lparr>calories = Some (Fin 500), protein = Some (Fin 0), carbs = Some (Fin 50),
      fat = Some (Fin 20), confidence = None\<rparr> =
   str ''500 cal'' @ delimiter @ str ''50g carbs'' @ delimiter @ str ''20g fat''"
  by (simp add: formatParsedMeal_def delimiter_def str_def Let_def)

section \<open>Sums of doubles\<close>

text \<open>The binade of a number is the exponent of the power of 2 just below it.\<close>

lemma binade_bounds:
  assumes "q \<noteq> 0"
  shows "2 powi binade q \<le> \<bar>q\<bar> \<and> \<bar>q\<bar> < 2 powi (binade q + 1)"
proof -
  obtain n d where nd: "quotient_of \<bar>q\<bar> = (n, d)" by (cases "quotient_of \<bar>q\<bar>")
  then have d: "0 < d" and q: "\<bar>q\<bar> = of_int n / of_int d"
    by (simp_all add: quotient_of_denom_pos quotient_of_div)
  from assms have "0 < \<bar>q\<bar>" by simp
  with q d have n: "0 < n" by (simp add: zero_less_divide_iff)
  define a where "a = bitlen n"
  define b where "b = bitlen d"
  define k where "k = a - b"
  from bitlen_bounds [OF n] have na: "n < 2 ^ nat a" by (simp add: a_def)
  from bitlen_bounds [OF d] have db: "2 ^ nat (b - 1) \<le> d" by (simp add: b_def)
  from n have a1: "1 \<le> a" unfolding a_def by (simp add: bitlen_alt_def)
  from d have b1: "1 \<le> b" unfolding b_def by (simp add: bitlen_alt_def)
  have "(of_int n :: rat) < of_int (2 ^ nat a)" using na by (simp only: of_int_less_iff)
  then have na': "(of_int n :: rat) < 2 powi a" using a1 by (simp add: power_int_def)
  have "(of_int (2 ^ nat (b - 1)) :: rat) \<le> of_int d" using db by (simp only: of_int_le_iff)
  then have db': "2 powi (b - 1) \<le> (of_int d :: rat)" using b1 by (simp add: power_int_def)
  have up: "\<bar>q\<bar> < 2 powi (k + 1)"
  proof -
    have "of_int n / of_int d < (2 powi a :: rat) / of_int d"
      using na' d by (simp add: divide_strict_right_mono)
    also have "\<dots> \<le> 2 powi a / 2 powi (b - 1)"
      using db' by (intro divide_left_mono) (simp_all add: d)
    also have "\<dots> = 2 powi (k + 1)"
      by (simp add: k_def power_int_diff [symmetric] algebra_simps)
    finally show ?thesis by (simp add: q)
  qed
  have kd: "binade q = (if 2 powi k \<le> \<bar>q\<bar> then k else k - 1)"
    by (simp add: binade_def nd k_def a_def b_def Let_def)
  show ?thesis
  proof (cases "2 powi k \<le> \<bar>q\<bar>")
    case True
    with up kd show ?thesis by simp
  next
    case False
    from bitlen_bounds [OF n] have "2 ^ nat (a - 1) \<le> n" by (simp add: a_def)
    then have "(of_int (2 ^ nat (a - 1)) :: rat) \<le> of_int n" by (simp only: of_int_le_iff)
    then have an: "2 powi (a - 1) \<le> (of_int n :: rat)" using a1 by (simp add: power_int_def)
    from bitlen_bounds [OF d] have "d < 2 ^ nat b" by (simp add: b_def)
    then have "(of_int d :: rat) < of_int (2 ^ nat b)" by (simp only: of_int_less_iff)
    then have bd: "(of_int d :: rat) \<le> 2 powi b" using b1 by (simp add: power_int_def)
    have "(2 powi (k - 1) :: rat) = 2 powi (a - 1) / 2 powi b"
      by (simp add: k_def power_int_diff [symmetric] algebra_simps)
    also have "\<dots> \<le> of_int n / 2 powi b"
      using an by (simp add: divide_right_mono)
    also have "\<dots> \<le> of_int n / of_int d"
      using bd d n by (intro divide_left_mono) simp_all
    finally have "2 powi (k - 1) \<le> \<bar>q\<bar>" by (simp add: q)
    with False kd show ?thesis by simp
  qed
qed

lemma binade_eqI:
  assumes "2 powi e \<le> \<bar>q\<bar>" and "\<bar>q\<bar> < 2 powi (e + 1)"
  shows "binade q = e"
proof -
  have "(0 :: rat) < 2 powi e" by (simp add: zero_less_power_int)
  with assms(1) have "0 < \<bar>q\<bar>" by linarith
  then have "q \<noteq> 0" by simp
  then have b: "2 powi binade q \<le> \<bar>q\<bar>" "\<bar>q\<bar> < 2 powi (binade q + 1)"
    using binade_bounds by blast+
  have "binade q < e + 1"
  proof (rule ccontr)
    assume "\<not> binade q < e + 1"
    then have "(2 :: rat) powi (e + 1) \<le> 2 powi binade q"
      by (intro power_int_increasing) simp_all
    with b(1) assms(2) show False by linarith
  qed
  moreover have "e < binade q + 1"
  proof (rule ccontr)
    assume "\<not> e < binade q + 1"
    then have "(2 :: rat) powi (binade q + 1) \<le> 2 powi e"
      by (intro power_int_increasing) simp_all
    with b(2) assms(1) show False by linarith
  qed
  ultimately show ?thesis by simp
qed

text \<open>
  A multiple of its quantum is a double. So is a whole number up to \<open>2^53\<close> in magnitude,
  and the sum of two whole numbers does not round when it is one of these.
\<close>

lemma round_half_even_of_int: "round_half_even (of_int m) = m"
  by (simp add: round_half_even_def)

lemma round_double_multiple:
  assumes "q = of_int m * quantum q" and "\<bar>q\<bar> < 2 ^ 1024"
  shows "round_double q = Fin q"
proof (cases "q = 0")
  case True
  then show ?thesis by (simp add: round_double_def)
next
  case False
  have u: "quantum q \<noteq> 0" by (simp add: quantum_def)
  from assms(1) u have "q / quantum q = of_int m" by (simp add: field_simps)
  then have "of_int (round_half_even (q / quantum q)) * quantum q = q"
    using assms(1) by (simp add: round_half_even_of_int)
  moreover from assms(2) have "\<not> 2 ^ 1024 \<le> q" and "\<not> q \<le> - (2 ^ 1024)"
    by (simp_all add: abs_if split: if_splits)
  ultimately show ?thesis using False
    by (simp only: round_double_def Let_def if_False)
qed

lemma round_double_of_int:
  assumes "\<bar>n\<bar> \<le> 2 ^ 53"
  shows "round_double (of_int n) = Fin (of_int n)"
proof (cases "n = 0")
  case True
  then show ?thesis by (simp add: round_double_def)
next
  case False
  let ?q = "of_int n :: rat"
  let ?e = "binade ?q"
  from False have q0: "?q \<noteq> 0" by simp
  from False have "1 \<le> \<bar>n\<bar>" by simp
  then have "(of_int 1 :: rat) \<le> of_int \<bar>n\<bar>" by (simp only: of_int_le_iff)
  then have q1: "1 \<le> \<bar>?q\<bar>" by simp
  from assms have "(of_int \<bar>n\<bar> :: rat) \<le> of_int (2 ^ 53)" by (simp only: of_int_le_iff)
  then have q53: "\<bar>?q\<bar> \<le> 2 ^ 53" by simp
  from binade_bounds [OF q0]
  have lo: "2 powi ?e \<le> \<bar>?q\<bar>" and hi: "\<bar>?q\<bar> < 2 powi (?e + 1)"
    by blast+
  have e0: "0 \<le> ?e"
  proof (rule ccontr)
    assume "\<not> 0 \<le> ?e"
    then have "(2 :: rat) powi (?e + 1) \<le> 2 powi 0"
      by (intro power_int_increasing) simp_all
    with hi q1 show False by simp
  qed
  have e53: "?e \<le> 53"
  proof (rule ccontr)
    assume "\<not> ?e \<le> 53"
    then have "(2 :: rat) powi 54 \<le> 2 powi ?e"
      by (intro power_int_increasing) simp_all
    with lo q53 show False by simp
  qed
  from e0 have u: "quantum ?q = 2 powi (?e - 52)" by (simp add: quantum_def max_def)
  have "\<exists>m. ?q = of_int m * quantum ?q"
  proof (cases "?e \<le> 52")
    case True
    then have "quantum ?q = 1 / 2 ^ nat (52 - ?e)"
      by (simp add: u power_int_def inverse_eq_divide power_one_over [symmetric]
          del: power_one_over)
    then have "?q = of_int (n * 2 ^ nat (52 - ?e)) * quantum ?q" by simp
    then show ?thesis by blast
  next
    case False
    with e53 have e: "?e = 53" by simp
    with lo q53 have "\<bar>?q\<bar> = 2 ^ 53" by simp
    then have "?q = 2 ^ 53 \<or> ?q = - (2 ^ 53)" by linarith
    moreover have "quantum ?q = 2" by (simp add: u e)
    ultimately have
      "?q = of_int (2 ^ 52) * quantum ?q \<or> ?q = of_int (- (2 ^ 52)) * quantum ?q"
      by auto
    then show ?thesis by blast
  qed
  then obtain m where "?q = of_int m * quantum ?q" ..
  moreover from q53 have "\<bar>?q\<bar> < 2 ^ 1024" by simp
  ultimately show ?thesis by (rule round_double_multiple)
qed

lemma double_add_of_int:
  "\<bar>a + b\<bar> \<le> 2 ^ 53 \<Longrightarrow> double_add (Fin (of_int a)) (Fin (of_int b)) = Fin (of_int (a + b))"
  using round_double_of_int [of "a + b"] by (simp add: double_add_def)




lemma double_add_overflow: "double_add (Fin (2 ^ 1023)) (Fin (2 ^ 1023)) = PosInf"
proof -
  have "binade (2 ^ 1024) = 1024" by (rule binade_eqI) simp_all
  then show ?thesis
    by (simp add: double_add_def round_double_def quantum_def round_half_even_def Let_def
        floor_numeral_div)
qed

lemma double_add_tenths:
  "round_double (1 / 10) = Fin (3602879701896397 / 2 ^ 55) \<and>
   round_double (2 / 10) = Fin (3602879701896397 / 2 ^ 54) \<and>
   double_add (Fin (3602879701896397 / 2 ^ 55)) (Fin (3602879701896397 / 2 ^ 54)) =
     Fin (1351079888211149 / 2 ^ 52)"
proof -
  have "binade (1 / 10) = - 4" by (rule binade_eqI) (simp_all add: power_int_minus)
  moreover have "binade (2 / 10) = - 3" by (rule binade_eqI) (simp_all add: power_int_minus)
  moreover have "binade (3602879701896397 / 2 ^ 55 + 3602879701896397 / 2 ^ 54) = - 2"
    by (rule binade_eqI) (simp_all add: power_int_minus)
  ultimately show ?thesis
    by (simp add: double_add_def round_double_def quantum_def round_half_even_def Let_def
        floor_numeral_div power_int_minus)
qed

section \<open>Totals of several meals\<close>


















text \<open>
  With infinite calories of both signs among the meals the order matters as well: the
  sum of the two infinities is NaN, which the next step of the reduction takes for 0, so
  that a meal added after them survives and a meal added before them is lost.
\<close>

lemma calculateTotals_infinities_order:
  "mset [only_calories PosInf, only_calories NegInf, only_calories (Fin 5)] =
     mset [only_calories (Fin 5), only_calories PosInf, only_calories NegInf] \<and>
   calories (calculateTotals
     [only_calories PosInf, only_calories NegInf, only_calories (Fin 5)]) = Some (Fin 5) \<and>
   calories (calculateTotals
     [only_calories (Fin 5), only_calories PosInf, only_calories NegInf]) = Some NaN"
  using double_add_of_int [of 0 5]
  by (simp add: calculateTotals_def zero_meal_def add_meal_def only_calories_def or0_def
      double_add_def)

end
